theory Spec2Isabelle
  imports Main
begin

section \<open>Go runtime and library values used by the module\<close>

text \<open>
  Go strings are byte sequences; \<^typ>\<open>string\<close> is a list of bytes. A run-time panic is a
  value of type \<open>panic\<close>, returned on the left of a sum.
\<close>

datatype panic = NilPointerDereference | IndexOutOfRange | UnlockOfUnlockedRWMutex

text \<open>
  Go \<open>error\<close> values the module returns or receives: a \<open>*fs.PathError\<close> (operation, path,
  cause); the errors of \<open>(*json.Decoder).Decode\<close>, namely a \<open>*json.SyntaxError\<close>, a
  \<open>*json.UnmarshalTypeError\<close>, \<open>io.EOF\<close> and \<open>io.ErrUnexpectedEOF\<close> (their messages and offsets
  are left out); and the results of \<open>fmt.Errorf\<close>, without and with a wrapped error (\<open>%w\<close>).
\<close>

datatype errno = ENOENT | EACCES | EISDIR | EIO

datatype error =
    PathError string string errno
  | SyntaxError
  | UnmarshalTypeError
  | EOF
  | ErrUnexpectedEOF
  | Message string
  | Wrapped string error

text \<open>
  A variadic argument of type \<open>interface{}\<close>: the type assertion \<open>arg.(string)\<close> succeeds on
  \<open>Str\<close>; any other dynamic value (numbers, nil, ...) is \<open>Other\<close> and is rendered by
  \<open>fmt.Sprint\<close>, which the definitions below take as the parameter \<open>Sprint\<close>.
\<close>

datatype 'a arg = Str string | Other 'a

subsection \<open>Package strings\<close>

definition HasPrefix :: "string \<Rightarrow> string \<Rightarrow> bool" where
  "HasPrefix s p = (length p \<le> length s \<and> take (length p) s = p)"

definition TrimPrefix :: "string \<Rightarrow> string \<Rightarrow> string" where
  "TrimPrefix s p = (if HasPrefix s p then drop (length p) s else s)"

definition TrimLeft :: "string \<Rightarrow> string \<Rightarrow> string" where
  "TrimLeft s cutset = dropWhile (\<lambda>c. c \<in> set cutset) s"

definition TrimRight :: "string \<Rightarrow> string \<Rightarrow> string" where
  "TrimRight s cutset = rev (dropWhile (\<lambda>c. c \<in> set cutset) (rev s))"

definition Trim :: "string \<Rightarrow> string \<Rightarrow> string" where
  "Trim s cutset = TrimRight (TrimLeft s cutset) cutset"

subsection \<open>Package strconv\<close>

definition isDigit :: "char \<Rightarrow> bool" where
  "isDigit c = (c \<in> set ''0123456789'')"

definition digit_of :: "char \<Rightarrow> nat" where
  "digit_of c = of_char c - 48"

definition digits_value :: "string \<Rightarrow> nat" where
  "digits_value ds = foldl (\<lambda>n c. n * 10 + digit_of c) 0 ds"

text \<open>
  \<open>strconv.Atoi\<close> in base 10 for an \<open>int\<close> of \<open>intSize\<close> bits (32 or 64 on the platforms Go
  supports): an optional sign, then one or more decimal digits; \<open>None\<close> stands for a non-nil
  error (syntax or range), which is all the module inspects.
\<close>

definition Atoi :: "nat \<Rightarrow> string \<Rightarrow> int option" where
  "Atoi intSize s =
     (let neg = (s \<noteq> [] \<and> hd s = CHR ''-'');
          body = (if s \<noteq> [] \<and> (hd s = CHR ''-'' \<or> hd s = CHR ''+'') then tl s else s);
          cutoff = (2::nat) ^ (intSize - 1)
      in if body = [] \<or> \<not> list_all isDigit body then None
         else if \<not> neg \<and> digits_value body \<ge> cutoff then None
         else if neg \<and> digits_value body > cutoff then None
         else Some (if neg then - int (digits_value body) else int (digits_value body)))"

subsection \<open>Package regexp, for the pattern \<open>\{(\d+)\}\<close>\<close>

definition placeholder :: "string \<Rightarrow> string" where
  "placeholder ds = CHR ''{'' # ds @ [CHR ''}'']"

text \<open>
  An attempt to match the pattern at the head of the input: an open brace, the longest run of
  decimal digits (at least one), a close brace. The result is the matched text and the input
  after it.
\<close>

definition match_placeholder :: "string \<Rightarrow> (string \<times> string) option" where
  "match_placeholder s =
     (case s of
        [] \<Rightarrow> None
      | c # t \<Rightarrow>
          if c = CHR ''{'' then
            (let ds = takeWhile isDigit t; r = dropWhile isDigit t
             in if ds \<noteq> [] \<and> r \<noteq> [] \<and> hd r = CHR ''}''
                then Some (placeholder ds, tl r) else None)
          else None)"

text \<open>
  \<open>(*Regexp).ReplaceAllStringFunc\<close>: the input is scanned once from left to right; every
  leftmost non-overlapping match is replaced by what \<open>repl\<close> returns for it, all other bytes
  are copied. A panic of \<open>repl\<close> ends the scan.
\<close>

function ReplaceAllStringFunc :: "string \<Rightarrow> (string \<Rightarrow> panic + string) \<Rightarrow> panic + string" where
  "ReplaceAllStringFunc [] repl = Inr []"
| "ReplaceAllStringFunc (c # cs) repl =
     (case match_placeholder (c # cs) of
        Some (m, rest) \<Rightarrow>
          (case repl m of
             Inl p \<Rightarrow> Inl p
           | Inr r \<Rightarrow>
               (case ReplaceAllStringFunc rest repl of
                  Inl p \<Rightarrow> Inl p
                | Inr out \<Rightarrow> Inr (r @ out)))
      | None \<Rightarrow>
          (case ReplaceAllStringFunc cs repl of
             Inl p \<Rightarrow> Inl p
           | Inr out \<Rightarrow> Inr (c # out)))"
  by pat_completeness auto

termination
proof (relation "measure (\<lambda>(s, repl). length s)")
  fix c :: char and cs :: string and repl :: "string \<Rightarrow> panic + string"
    and x2 :: "string \<times> string" and x y :: string
  assume "match_placeholder (c # cs) = Some x2" and "(x, y) = x2"
  then have "y = tl (dropWhile isDigit cs)"
    by (auto simp: match_placeholder_def Let_def split: if_splits)
  moreover have "length (dropWhile isDigit cs) \<le> length cs"
    by (rule length_dropWhile_le)
  ultimately show "((y, repl), c # cs, repl) \<in> measure (\<lambda>(s, repl). length s)"
    by simp
qed simp_all

subsection \<open>Package sync and the zap logger\<close>

text \<open>
  A \<open>sync.RWMutex\<close> is the number of read locks held (the module never takes the write
  lock); a \<open>*sync.RWMutex\<close> may be nil. Threads are not modelled.
\<close>

type_synonym RWMutex = nat

definition RLock :: "RWMutex option \<Rightarrow> panic + RWMutex" where
  "RLock m = (case m of None \<Rightarrow> Inl NilPointerDereference | Some n \<Rightarrow> Inr (Suc n))"

definition RUnlock :: "RWMutex option \<Rightarrow> panic + RWMutex" where
  "RUnlock m =
     (case m of
        None \<Rightarrow> Inl NilPointerDereference
      | Some n \<Rightarrow> (case n of 0 \<Rightarrow> Inl UnlockOfUnlockedRWMutex | Suc k \<Rightarrow> Inr k))"

datatype level = InfoLevel | WarnLevel

type_synonym log_entry = "level \<times> string \<times> (string \<times> string) list"

subsection \<open>Package encoding/json\<close>

type_synonym dictionary = "string \<rightharpoonup> (string \<rightharpoonup> string)"

text \<open>
  A JSON value as the decoder sees it. A string keeps the bytes between its quotes; the text
  of a number is dropped, since no number is ever stored in a
  \<open>map[string]map[string]string\<close>.
\<close>

datatype json =
    JNull
  | JBool bool
  | JNumber
  | JString string
  | JArray "json list"
  | JObject "(string \<times> json) list"

text \<open>
  The scanner of \<open>encoding/json\<close> is a state machine that is fed one byte at a time. Its
  \<open>parseState\<close> stack says what each enclosing object or array is waiting for; here every
  entry also holds what has been read of its object or array so far, and a key whose value is
  still to come.
\<close>

datatype frame =
    ObjectKey "(string \<times> json) list" "string option"
  | ObjectValue "(string \<times> json) list" "string option"
  | ArrayValue "json list"

datatype scan_step =
    StBeginValue | StBeginValueOrEmpty | StBeginString | StBeginStringOrEmpty
  | StInString string | StInStringEsc string | StInStringEscU nat string
  | StNeg | St0 | St1 | StDot | StDot0 | StE | StESign | StE0
  | StLiteral string json
  | StEndValue

text \<open>
  The outcome of one byte: go on, the first value is complete with this byte
  (\<open>ScanEnd\<close>), it was complete before this byte (\<open>ScanEndBefore\<close>, after a number), or the
  byte is a syntax error.
\<close>

datatype scan_result =
    ScanContinue scan_step "frame list"
  | ScanEnd json
  | ScanEndBefore json
  | ScanError

definition isSpace :: "char \<Rightarrow> bool" where
  "isSpace c = (c = CHR '' '' \<or> c = CHR 0x09 \<or> c = CHR 0x0D \<or> c = CHR 0x0A)"

definition isHex :: "char \<Rightarrow> bool" where
  "isHex c = (c \<in> set ''0123456789abcdefABCDEF'')"

definition maxNestingDepth :: nat where
  "maxNestingDepth = 10000"

text \<open>
  A value is complete: at the top level the scan ends; inside an object it is the pending key
  or the value of the pending key; inside an array it is the next element.
\<close>

fun value_complete :: "json \<Rightarrow> frame list \<Rightarrow> scan_result" where
  "value_complete v [] = ScanEnd v"
| "value_complete v (ObjectKey ms k # rest) =
     (case (k, v) of
        (None, JString raw) \<Rightarrow> ScanContinue StEndValue (ObjectKey ms (Some raw) # rest)
      | _ \<Rightarrow> ScanError)"
| "value_complete v (ObjectValue ms k # rest) =
     (case k of
        Some key \<Rightarrow> ScanContinue StEndValue (ObjectValue (ms @ [(key, v)]) None # rest)
      | None \<Rightarrow> ScanError)"
| "value_complete v (ArrayValue es # rest) =
     ScanContinue StEndValue (ArrayValue (es @ [v]) # rest)"

fun stateEndValue :: "frame list \<Rightarrow> char \<Rightarrow> scan_result" where
  "stateEndValue [] c = ScanError"
| "stateEndValue (f # rest) c =
     (if isSpace c then ScanContinue StEndValue (f # rest)
      else
        (case f of
           ObjectKey ms k \<Rightarrow>
             (if c = CHR '':'' then ScanContinue StBeginValue (ObjectValue ms k # rest)
              else ScanError)
         | ObjectValue ms k \<Rightarrow>
             (if c = CHR '','' then ScanContinue StBeginString (ObjectKey ms None # rest)
              else if c = CHR ''}'' then value_complete (JObject ms) rest
              else ScanError)
         | ArrayValue es \<Rightarrow>
             (if c = CHR '','' then ScanContinue StBeginValue (ArrayValue es # rest)
              else if c = CHR '']'' then value_complete (JArray es) rest
              else ScanError)))"

definition pushParseState :: "frame \<Rightarrow> scan_step \<Rightarrow> frame list \<Rightarrow> scan_result" where
  "pushParseState f st stk =
     (if length (f # stk) \<le> maxNestingDepth then ScanContinue st (f # stk) else ScanError)"

definition stateBeginValue :: "frame list \<Rightarrow> char \<Rightarrow> scan_result" where
  "stateBeginValue stk c =
     (if isSpace c then ScanContinue StBeginValue stk
      else if c = CHR ''{'' then pushParseState (ObjectKey [] None) StBeginStringOrEmpty stk
      else if c = CHR ''['' then pushParseState (ArrayValue []) StBeginValueOrEmpty stk
      else if c = CHR 0x22 then ScanContinue (StInString []) stk
      else if c = CHR ''-'' then ScanContinue StNeg stk
      else if c = CHR ''0'' then ScanContinue St0 stk
      else if c = CHR ''t'' then ScanContinue (StLiteral ''rue'' (JBool True)) stk
      else if c = CHR ''f'' then ScanContinue (StLiteral ''alse'' (JBool False)) stk
      else if c = CHR ''n'' then ScanContinue (StLiteral ''ull'' JNull) stk
      else if isDigit c then ScanContinue St1 stk
      else ScanError)"

definition stateBeginString :: "frame list \<Rightarrow> char \<Rightarrow> scan_result" where
  "stateBeginString stk c =
     (if isSpace c then ScanContinue StBeginString stk
      else if c = CHR 0x22 then ScanContinue (StInString []) stk
      else ScanError)"

text \<open>
  A byte that cannot continue a number ends it: the number is complete before that byte,
  which is then looked at as the byte after a value.
\<close>

definition number_end :: "frame list \<Rightarrow> char \<Rightarrow> scan_result" where
  "number_end stk c =
     (case value_complete JNumber stk of
        ScanContinue st stk' \<Rightarrow> stateEndValue stk' c
      | ScanEnd v \<Rightarrow> ScanEndBefore v
      | ScanEndBefore v \<Rightarrow> ScanEndBefore v
      | ScanError \<Rightarrow> ScanError)"

definition state0 :: "frame list \<Rightarrow> char \<Rightarrow> scan_result" where
  "state0 stk c =
     (if c = CHR ''.'' then ScanContinue StDot stk
      else if c = CHR ''e'' \<or> c = CHR ''E'' then ScanContinue StE stk
      else number_end stk c)"

definition stateESign :: "frame list \<Rightarrow> char \<Rightarrow> scan_result" where
  "stateESign stk c = (if isDigit c then ScanContinue StE0 stk else ScanError)"

fun step :: "scan_step \<Rightarrow> frame list \<Rightarrow> char \<Rightarrow> scan_result" where
  "step StBeginValue stk c = stateBeginValue stk c"
| "step StBeginValueOrEmpty stk c =
     (if isSpace c then ScanContinue StBeginValueOrEmpty stk
      else if c = CHR '']'' then stateEndValue stk c
      else stateBeginValue stk c)"
| "step StBeginString stk c = stateBeginString stk c"
| "step StBeginStringOrEmpty stk c =
     (if isSpace c then ScanContinue StBeginStringOrEmpty stk
      else if c = CHR ''}'' then
        (case stk of
           ObjectKey ms k # rest \<Rightarrow> stateEndValue (ObjectValue ms k # rest) c
         | _ \<Rightarrow> ScanError)
      else stateBeginString stk c)"
| "step (StInString raw) stk c =
     (if c = CHR 0x22 then value_complete (JString raw) stk
      else if c = CHR 0x5C then ScanContinue (StInStringEsc (raw @ [c])) stk
      else if (of_char c :: nat) < 0x20 then ScanError
      else ScanContinue (StInString (raw @ [c])) stk)"
| "step (StInStringEsc raw) stk c =
     (if c \<in> set ''bfnrt/'' \<or> c = CHR 0x5C \<or> c = CHR 0x22
      then ScanContinue (StInString (raw @ [c])) stk
      else if c = CHR ''u'' then ScanContinue (StInStringEscU 4 (raw @ [c])) stk
      else ScanError)"
| "step (StInStringEscU n raw) stk c =
     (if isHex c then
        (if n \<le> 1 then ScanContinue (StInString (raw @ [c])) stk
         else ScanContinue (StInStringEscU (n - 1) (raw @ [c])) stk)
      else ScanError)"
| "step StNeg stk c =
     (if c = CHR ''0'' then ScanContinue St0 stk
      else if isDigit c then ScanContinue St1 stk
      else ScanError)"
| "step St1 stk c = (if isDigit c then ScanContinue St1 stk else state0 stk c)"
| "step St0 stk c = state0 stk c"
| "step StDot stk c = (if isDigit c then ScanContinue StDot0 stk else ScanError)"
| "step StDot0 stk c =
     (if isDigit c then ScanContinue StDot0 stk
      else if c = CHR ''e'' \<or> c = CHR ''E'' then ScanContinue StE stk
      else number_end stk c)"
| "step StE stk c =
     (if c = CHR ''+'' \<or> c = CHR ''-'' then ScanContinue StESign stk else stateESign stk c)"
| "step StESign stk c = stateESign stk c"
| "step StE0 stk c = (if isDigit c then ScanContinue StE0 stk else number_end stk c)"
| "step (StLiteral rest v) stk c =
     (case rest of
        [] \<Rightarrow> ScanError
      | x # xs \<Rightarrow>
          if c \<noteq> x then ScanError
          else if xs = [] then value_complete v stk
          else ScanContinue (StLiteral xs v) stk)"
| "step StEndValue stk c = stateEndValue stk c"

text \<open>
  \<open>(*Decoder).readValue\<close>: the bytes are fed to the scanner until the first value is complete;
  the result is that value and the bytes after it. When the input ends first, a number at the
  top level is complete, input of white space only is \<open>io.EOF\<close>, and anything else is
  \<open>io.ErrUnexpectedEOF\<close>.
\<close>

fun scan :: "scan_step \<Rightarrow> frame list \<Rightarrow> string \<Rightarrow> error + json \<times> string" where
  "scan st stk [] =
     (if stk = [] \<and> st \<in> {St0, St1, StDot0, StE0} then Inr (JNumber, [])
      else if stk = [] \<and> st = StBeginValue then Inl EOF
      else Inl ErrUnexpectedEOF)"
| "scan st stk (c # cs) =
     (case step st stk c of
        ScanContinue st' stk' \<Rightarrow> scan st' stk' cs
      | ScanEnd v \<Rightarrow> Inr (v, cs)
      | ScanEndBefore v \<Rightarrow> Inr (v, c # cs)
      | ScanError \<Rightarrow> Inl SyntaxError)"

definition readValue :: "string \<Rightarrow> error + json \<times> string" where
  "readValue bytes = scan StBeginValue [] bytes"

text \<open>
  \<open>unquote\<close>: the text of a string from the bytes between its quotes. Escapes are replaced, a
  \<open>u\<close> escape of four hexadecimal digits by the UTF-8 encoding of its code point (a surrogate pair by that of the
  character it stands for, a lone surrogate by that of U+FFFD); a byte that does not start
  well-formed UTF-8 is replaced by the encoding of U+FFFD. The scanner has accepted the
  bytes, so the cases in which \<open>unquote\<close> itself fails (here the result \<open>[]\<close>) do not arise.
\<close>

definition RuneError :: nat where
  "RuneError = 0xFFFD"

definition EncodeRune :: "nat \<Rightarrow> string" where
  "EncodeRune r =
     (if r \<le> 0x7F then [char_of r]
      else if r \<le> 0x7FF then [char_of (0xC0 + r div 64), char_of (0x80 + r mod 64)]
      else if r > 0x10FFFF \<or> (0xD800 \<le> r \<and> r \<le> 0xDFFF) then [CHR 0xEF, CHR 0xBF, CHR 0xBD]
      else if r \<le> 0xFFFF then
        [char_of (0xE0 + r div 4096), char_of (0x80 + (r div 64) mod 64),
         char_of (0x80 + r mod 64)]
      else
        [char_of (0xF0 + r div 262144), char_of (0x80 + (r div 4096) mod 64),
         char_of (0x80 + (r div 64) mod 64), char_of (0x80 + r mod 64)])"

definition in_range :: "nat \<Rightarrow> nat \<Rightarrow> char \<Rightarrow> bool" where
  "in_range lo hi c = (lo \<le> of_char c \<and> (of_char c :: nat) \<le> hi)"

text \<open>
  The number of bytes of the well-formed UTF-8 encoding at the head of the input, as
  \<open>utf8.DecodeRune\<close> finds it for a first byte of \<open>0x80\<close> or more; 0 when there is none.
\<close>

definition utf8_size :: "string \<Rightarrow> nat" where
  "utf8_size s =
     (case s of
        [] \<Rightarrow> 0
      | b0 # t \<Rightarrow>
          (let x = (of_char b0 :: nat);
               sz = (if 0xC2 \<le> x \<and> x \<le> 0xDF then 2
                     else if 0xE0 \<le> x \<and> x \<le> 0xEF then 3
                     else if 0xF0 \<le> x \<and> x \<le> 0xF4 then 4 else (0::nat));
               lo = (if x = 0xE0 then 0xA0 else if x = 0xF0 then 0x90 else 0x80);
               hi = (if x = 0xED then 0x9F else if x = 0xF4 then 0x8F else 0xBF)
           in if sz = 0 \<or> length s < sz then 0
              else if \<not> in_range lo hi (s ! 1) then 0
              else if sz = 2 then 2
              else if \<not> in_range 0x80 0xBF (s ! 2) then 0
              else if sz = 3 then 3
              else if \<not> in_range 0x80 0xBF (s ! 3) then 0
              else 4))"

definition hex_value :: "char \<Rightarrow> nat" where
  "hex_value c =
     (if isDigit c then of_char c - 48
      else if c \<in> set ''abcdef'' then of_char c - 87
      else of_char c - 55)"

definition getu4 :: "string \<Rightarrow> nat option" where
  "getu4 s =
     (if length s < 6 \<or> s ! 0 \<noteq> CHR 0x5C \<or> s ! 1 \<noteq> CHR ''u'' then None
      else if \<not> list_all isHex (take 4 (drop 2 s)) then None
      else Some (foldl (\<lambda>n c. n * 16 + hex_value c) 0 (take 4 (drop 2 s))))"

definition IsSurrogate :: "nat \<Rightarrow> bool" where
  "IsSurrogate r = (0xD800 \<le> r \<and> r < 0xE000)"

definition utf16_DecodeRune :: "nat \<Rightarrow> nat option \<Rightarrow> nat" where
  "utf16_DecodeRune r1 r2 =
     (case r2 of
        None \<Rightarrow> RuneError
      | Some r2' \<Rightarrow>
          if 0xD800 \<le> r1 \<and> r1 < 0xDC00 \<and> 0xDC00 \<le> r2' \<and> r2' < 0xE000
          then (r1 - 0xD800) * 1024 + (r2' - 0xDC00) + 0x10000
          else RuneError)"

definition escape_byte :: "char \<Rightarrow> char" where
  "escape_byte e =
     (if e = CHR ''b'' then CHR 0x08
      else if e = CHR ''f'' then CHR 0x0C
      else if e = CHR ''n'' then CHR 0x0A
      else if e = CHR ''r'' then CHR 0x0D
      else if e = CHR ''t'' then CHR 0x09
      else e)"

function unquote :: "string \<Rightarrow> string" where
  "unquote [] = []"
| "unquote (c # cs) =
     (if c = CHR 0x5C then
        (case cs of
           [] \<Rightarrow> []
         | e # r \<Rightarrow>
             if e = CHR ''u'' then
               (case getu4 (c # cs) of
                  None \<Rightarrow> []
                | Some rr \<Rightarrow>
                    if IsSurrogate rr then
                      (if utf16_DecodeRune rr (getu4 (drop 4 r)) \<noteq> RuneError
                       then EncodeRune (utf16_DecodeRune rr (getu4 (drop 4 r)))
                              @ unquote (drop 10 r)
                       else EncodeRune RuneError @ unquote (drop 4 r))
                    else EncodeRune rr @ unquote (drop 4 r))
             else escape_byte e # unquote r)
      else if (of_char c :: nat) < 0x80 then c # unquote cs
      else if utf8_size (c # cs) = 0 then EncodeRune RuneError @ unquote cs
      else take (utf8_size (c # cs)) (c # cs) @ unquote (drop (utf8_size (c # cs)) (c # cs)))"
  by pat_completeness auto

termination
  by (relation "measure length") auto

text \<open>
  Storing a JSON value into a \<open>map[string]map[string]string\<close>, as \<open>Unmarshal\<close> does. A value of
  the wrong JSON type is a \<open>*json.UnmarshalTypeError\<close>; decoding goes on after it, its place
  takes the zero value, and the first such error is returned at the end. \<open>null\<close> is no
  error: it leaves a string empty and makes a map nil (which reads like an empty map). An
  object is stored key by key into the map that is there, a later key replacing an earlier
  one; each member of the outer object gets a fresh inner map.
\<close>

definition first_error :: "error option \<Rightarrow> error option \<Rightarrow> error option" where
  "first_error a b = (case a of Some e \<Rightarrow> Some e | None \<Rightarrow> b)"

fun decode_text :: "json \<Rightarrow> error option \<times> string" where
  "decode_text (JString raw) = (None, unquote raw)"
| "decode_text JNull = (None, [])"
| "decode_text v = (Some UnmarshalTypeError, [])"

fun decode_locale_members ::
  "(string \<times> json) list \<Rightarrow> (string \<rightharpoonup> string)
     \<Rightarrow> error option \<times> (string \<rightharpoonup> string)" where
  "decode_locale_members [] m = (None, m)"
| "decode_locale_members ((k, v) # ms) m =
     (case decode_text v of
        (e, s) \<Rightarrow>
          (case decode_locale_members ms (m(unquote k \<mapsto> s)) of
             (e', m') \<Rightarrow> (first_error e e', m')))"

fun decode_locale_map :: "json \<Rightarrow> error option \<times> (string \<rightharpoonup> string)" where
  "decode_locale_map (JObject ms) = decode_locale_members ms Map.empty"
| "decode_locale_map JNull = (None, Map.empty)"
| "decode_locale_map v = (Some UnmarshalTypeError, Map.empty)"

fun decode_members ::
  "(string \<times> json) list \<Rightarrow> dictionary \<Rightarrow> error option \<times> dictionary" where
  "decode_members [] m = (None, m)"
| "decode_members ((k, v) # ms) m =
     (case decode_locale_map v of
        (e, inner) \<Rightarrow>
          (case decode_members ms (m(unquote k \<mapsto> inner)) of
             (e', m') \<Rightarrow> (first_error e e', m')))"

fun unmarshal :: "json \<Rightarrow> dictionary \<Rightarrow> error option \<times> dictionary" where
  "unmarshal (JObject ms) m = decode_members ms m"
| "unmarshal JNull m = (None, Map.empty)"
| "unmarshal v m = (Some UnmarshalTypeError, m)"

section \<open>The module (i18n.go)\<close>

text \<open>
  The struct \<open>I18n\<close>. Reading a nil Go map behaves like reading an empty one, so
  the field \<open>translations\<close> is the map \<open>translationsMap\<close>. A \<open>*zap.Logger\<close> is the list of
  entries written to it so far, or nil.
\<close>

record I18n =
  DictFile :: string
  translationsMap :: "string \<rightharpoonup> (string \<rightharpoonup> string)"
  mu :: "RWMutex option"
  logger :: "log_entry list option"

definition log_to :: "level \<Rightarrow> string \<Rightarrow> (string \<times> string) list \<Rightarrow> I18n \<Rightarrow> I18n" where
  "log_to lvl msg kvs i =
     (case logger i of
        None \<Rightarrow> i
      | Some out \<Rightarrow> i\<lparr>logger := Some (out @ [(lvl, msg, kvs)])\<rparr>)"

text \<open>The function literal passed to \<open>ReplaceAllStringFunc\<close> in \<open>interpolateTranslations\<close>.\<close>

definition replace_match ::
  "nat \<Rightarrow> ('a \<Rightarrow> string) \<Rightarrow> I18n \<Rightarrow> string \<Rightarrow> 'a arg list \<Rightarrow> string \<Rightarrow> panic + string" where
  "replace_match intSize Sprint i lang args match =
     (let numStr = Trim match ''{}'' in
      case Atoi intSize numStr of
        None \<Rightarrow> Inr match
      | Some idx \<Rightarrow>
          if idx \<ge> int (length args) then Inr match
          else if idx < 0 then Inl IndexOutOfRange
          else
            (case args ! nat idx of
               Str str \<Rightarrow>
                 if HasPrefix str ''i18n:'' then
                   (let translationKey = TrimPrefix str ''i18n:'' in
                    case translationsMap i translationKey of
                      Some entry \<Rightarrow>
                        (case entry lang of
                           Some val \<Rightarrow> Inr val
                         | None \<Rightarrow>
                             (case entry ''en'' of
                                Some val \<Rightarrow> Inr val
                              | None \<Rightarrow> Inr translationKey))
                    | None \<Rightarrow> Inr translationKey)
                 else Inr str
             | Other v \<Rightarrow> Inr (Sprint v)))"

definition interpolateTranslations ::
  "nat \<Rightarrow> ('a \<Rightarrow> string) \<Rightarrow> I18n \<Rightarrow> string \<Rightarrow> string \<Rightarrow> 'a arg list \<Rightarrow> panic + string" where
  "interpolateTranslations intSize Sprint i tmpl lang args =
     ReplaceAllStringFunc tmpl (replace_match intSize Sprint i lang args)"

text \<open>
  The end of the \<open>i18nTranslate\<close> closure: interpolation when arguments were given, then the
  return of the value with a nil error.
\<close>

definition interpolate_and_return ::
  "nat \<Rightarrow> ('a \<Rightarrow> string) \<Rightarrow> I18n \<Rightarrow> string \<Rightarrow> string \<Rightarrow> 'a arg list
     \<Rightarrow> panic + ((string \<times> error option) \<times> I18n)" where
  "interpolate_and_return intSize Sprint i val lang args =
     (if length args > 0 then
        (case interpolateTranslations intSize Sprint i val lang args of
           Inl p \<Rightarrow> Inl p
         | Inr val' \<Rightarrow> Inr ((val', None), i))
      else Inr ((val, None), i))"

text \<open>The body of the closure between \<open>RLock\<close> and the deferred \<open>RUnlock\<close>.\<close>

definition translate_locked ::
  "nat \<Rightarrow> ('a \<Rightarrow> string) \<Rightarrow> I18n \<Rightarrow> string \<Rightarrow> string \<Rightarrow> 'a arg list
     \<Rightarrow> panic + ((string \<times> error option) \<times> I18n)" where
  "translate_locked intSize Sprint i key lang args =
     (case translationsMap i key of
        None \<Rightarrow>
          Inr ((key, None),
               log_to WarnLevel ''translation key not found, using key as fallback''
                 [(''key'', key)] i)
      | Some entry \<Rightarrow>
          (case entry lang of
             Some val \<Rightarrow> interpolate_and_return intSize Sprint i val lang args
           | None \<Rightarrow>
               (case entry ''en'' of
                  None \<Rightarrow>
                    Inr ((key, None),
                         log_to WarnLevel
                           ''no translation for requested language or 'en', using key as fallback''
                           [(''key'', key), (''requested_lang'', lang)] i)
                | Some val \<Rightarrow>
                    interpolate_and_return intSize Sprint
                      (log_to InfoLevel (''requested language not found, falling back to 'en'' @ [CHR 0x27])
                         [(''key'', key), (''requested_lang'', lang)] i)
                      val lang args)))"

text \<open>
  The template function \<open>i18nTranslate\<close>: the returned pair is the Go result
  \<open>(string, error)\<close>, with the error as its message or \<open>None\<close> for nil, next to the module
  after the call.
\<close>

definition i18nTranslate ::
  "nat \<Rightarrow> ('a \<Rightarrow> string) \<Rightarrow> I18n \<Rightarrow> string \<Rightarrow> string \<Rightarrow> 'a arg list
     \<Rightarrow> panic + ((string \<times> error option) \<times> I18n)" where
  "i18nTranslate intSize Sprint i key lang args =
     (case RLock (mu i) of
        Inl p \<Rightarrow> Inl p
      | Inr n \<Rightarrow>
          (case translate_locked intSize Sprint (i\<lparr>mu := Some n\<rparr>) key lang args of
             Inl p \<Rightarrow> Inl p
           | Inr (res, i') \<Rightarrow>
               (case RUnlock (mu i') of
                  Inl p \<Rightarrow> Inl p
                | Inr n' \<Rightarrow> Inr (res, i'\<lparr>mu := Some n'\<rparr>))))"

subsection \<open>Loading the dictionary\<close>

text \<open>
  The file system is what \<open>os.Open\<close> and the reads of the opened file give for a path: a
  failure to open, or a file whose content either cannot be read or is a byte string.
\<close>

type_synonym filesystem = "string \<Rightarrow> errno + (errno + string)"

datatype os_File = File string "errno + string"

definition os_Open :: "filesystem \<Rightarrow> string \<Rightarrow> error + os_File" where
  "os_Open fs name =
     (case fs name of
        Inl e \<Rightarrow> Inl (PathError ''open'' name e)
      | Inr content \<Rightarrow> Inr (File name content))"

text \<open>\<open>errors.Is(err, fs.ErrNotExist)\<close>: the chain of wrapped errors holds \<open>ENOENT\<close>.\<close>

fun Is_ErrNotExist :: "error \<Rightarrow> bool" where
  "Is_ErrNotExist (PathError op name e) = (e = ENOENT)"
| "Is_ErrNotExist (Wrapped msg err) = Is_ErrNotExist err"
| "Is_ErrNotExist SyntaxError = False"
| "Is_ErrNotExist UnmarshalTypeError = False"
| "Is_ErrNotExist EOF = False"
| "Is_ErrNotExist ErrUnexpectedEOF = False"
| "Is_ErrNotExist (Message msg) = False"

text \<open>
  \<open>(*json.Decoder).Decode\<close> into \<open>&i.translations\<close>: an error of the underlying reader is
  returned as it is; otherwise the first JSON value of the bytes is read and stored into the
  map. What follows the first value stays unread in the decoder's buffer.
\<close>

definition Decode :: "os_File \<Rightarrow> dictionary \<Rightarrow> error option \<times> dictionary" where
  "Decode f m =
     (case f of
        File name content \<Rightarrow>
          (case content of
             Inl e \<Rightarrow> (Some (PathError ''read'' name e), m)
           | Inr bytes \<Rightarrow>
               (case readValue bytes of
                  Inl err \<Rightarrow> (Some err, m)
                | Inr (v, rest) \<Rightarrow> unmarshal v m)))"

definition loadDictionary :: "filesystem \<Rightarrow> I18n \<Rightarrow> error option \<times> I18n" where
  "loadDictionary fs i =
     (case os_Open fs (DictFile i) of
        Inl err \<Rightarrow>
          if Is_ErrNotExist err
          then (Some (Message (''dictionary file not found: '' @ DictFile i)), i)
          else (Some err, i)
      | Inr f \<Rightarrow>
          (case Decode f (translationsMap i) of
             (Some err, m) \<Rightarrow>
               (Some (Wrapped ''failed to parse JSON dictionary: '' err), i\<lparr>translationsMap := m\<rparr>)
           | (None, m) \<Rightarrow> (None, i\<lparr>translationsMap := m\<rparr>)))"

text \<open>
  \<open>Provision\<close>; \<open>ctx_logger\<close> is the logger that \<open>ctx.Logger()\<close> returns, which is never nil.
\<close>

definition Provision ::
  "filesystem \<Rightarrow> log_entry list \<Rightarrow> I18n \<Rightarrow> error option \<times> I18n" where
  "Provision fs ctx_logger i =
     (let i1 = i\<lparr>logger := Some ctx_logger\<rparr>;
          i2 = (if mu i1 = None then i1\<lparr>mu := Some 0\<rparr> else i1);
          i3 = i2\<lparr>translationsMap := Map.empty\<rparr>
      in if DictFile i3 \<noteq> [] then
           (case loadDictionary fs i3 of
              (Some err, i4) \<Rightarrow> (Some (Wrapped ''failed to load i18n dictionary: '' err), i4)
            | (None, i4) \<Rightarrow>
                (None,
                 log_to InfoLevel ''i18n dictionary loaded successfully''
                   [(''dict_file'', DictFile i4)] i4))
         else (None, i3))"

section \<open>Notions used to state the properties\<close>

text \<open>
  A text contains a placeholder token when some substring of it is an open brace, one or more
  decimal digits and a close brace.
\<close>

definition contains_placeholder :: "string \<Rightarrow> bool" where
  "contains_placeholder text =
     (\<exists>pre ds post. ds \<noteq> [] \<and> list_all isDigit ds \<and> text = pre @ placeholder ds @ post)"

text \<open>
  The three kinds of load failure that the specification names, read off the errors that
  \<open>loadDictionary\<close> returns: its not-found message, its parse wrapper, and an error of the
  operating system passed on as it is.
\<close>

datatype load_failure = NotFound | ParseError | ReadError

fun failure_kind :: "error \<Rightarrow> load_failure option" where
  "failure_kind (Message msg) =
     (if HasPrefix msg ''dictionary file not found: '' then Some NotFound else None)"
| "failure_kind (Wrapped msg err) =
     (if msg = ''failed to parse JSON dictionary: '' then Some ParseError else None)"
| "failure_kind (PathError op name e) = Some ReadError"
| "failure_kind err = None"

text \<open>
  The document that the specification describes: a JSON object whose members are JSON objects
  whose members are JSON strings, and nothing after it but white space.
\<close>

fun is_text :: "json \<Rightarrow> bool" where
  "is_text (JString raw) = True"
| "is_text v = False"

fun is_language_map :: "json \<Rightarrow> bool" where
  "is_language_map (JObject ms) = list_all (\<lambda>(k, v). is_text v) ms"
| "is_language_map v = False"

fun is_dictionary :: "json \<Rightarrow> bool" where
  "is_dictionary (JObject ms) = list_all (\<lambda>(k, v). is_language_map v) ms"
| "is_dictionary v = False"

definition two_level_document :: "string \<Rightarrow> bool" where
  "two_level_document bytes =
     (case readValue bytes of
        Inl err \<Rightarrow> False
      | Inr (v, rest) \<Rightarrow> is_dictionary v \<and> list_all isSpace rest)"

text \<open>
  The same structure with \<open>null\<close> allowed in place of a text, of a language map and of the
  whole dictionary, required only of the first JSON value of the bytes.
\<close>

fun is_text_or_null :: "json \<Rightarrow> bool" where
  "is_text_or_null (JString raw) = True"
| "is_text_or_null JNull = True"
| "is_text_or_null v = False"

fun is_language_map_or_null :: "json \<Rightarrow> bool" where
  "is_language_map_or_null (JObject ms) = list_all (\<lambda>(k, v). is_text_or_null v) ms"
| "is_language_map_or_null JNull = True"
| "is_language_map_or_null v = False"

fun is_dictionary_or_null :: "json \<Rightarrow> bool" where
  "is_dictionary_or_null (JObject ms) = list_all (\<lambda>(k, v). is_language_map_or_null v) ms"
| "is_dictionary_or_null JNull = True"
| "is_dictionary_or_null v = False"

definition begins_with_dictionary_or_null :: "string \<Rightarrow> bool" where
  "begins_with_dictionary_or_null bytes =
     (case readValue bytes of
        Inl err \<Rightarrow> False
      | Inr (v, rest) \<Rightarrow> is_dictionary_or_null v)"

text \<open>The same, decided by trying the pattern at every position.\<close>

fun has_placeholder :: "string \<Rightarrow> bool" where
  "has_placeholder [] = False"
| "has_placeholder (c # cs) = (match_placeholder (c # cs) \<noteq> None \<or> has_placeholder cs)"

section \<open>A sample module\<close>

text \<open>
  A dictionary in the shape of the README's and the tests' dictionaries, held by a provisioned
  module, and \<open>fmt.Sprint\<close> for the one non-string argument used with it, a nil interface.
\<close>

definition sample_translations :: dictionary where
  "sample_translations =
     [''hello'' \<mapsto> [''de'' \<mapsto> ''Hallo'', ''en'' \<mapsto> ''Hello''],
      ''goodbye'' \<mapsto> [''en'' \<mapsto> ''Goodbye''],
      ''bonjour'' \<mapsto> [''fr'' \<mapsto> ''Bonjour''],
      ''account'' \<mapsto> [''de'' \<mapsto> ''Konto'', ''en'' \<mapsto> ''Account''],
      ''msg'' \<mapsto> [''en'' \<mapsto> ''Value: {0} and {5}''],
      ''typ'' \<mapsto> [''en'' \<mapsto> ''Type: {0}''],
      ''loop'' \<mapsto> [''en'' \<mapsto> ''<{0}>''],
      ''big'' \<mapsto> [''en'' \<mapsto> ''{99999999999999999999}!'']]"

definition sample_module :: I18n where
  "sample_module =
     \<lparr>DictFile = ''/etc/caddy/translations.json'', translationsMap = sample_translations,
      mu = Some 0, logger = Some []\<rparr>"

definition Sprint_nil :: "unit \<Rightarrow> string" where
  "Sprint_nil v = ''<nil>''"

text \<open>
  A file system with a dictionary file holding the empty JSON object, a dictionary of one key,
  four files whose content is not the document the specification describes (bytes after the
  object, \<open>null\<close> for the dictionary, for a language map and for a text), a file of invalid
  JSON, a directory (it opens, reading it fails), a file that may not be opened, and nothing
  else.
\<close>

definition quoted :: "string \<Rightarrow> string" where
  "quoted s = CHR 0x22 # s @ [CHR 0x22]"

definition hello_document :: string where
  "hello_document =
     ''{'' @ quoted ''hello'' @ '': {'' @ quoted ''de'' @ '': '' @ quoted ''Hallo'' @ '', ''
       @ quoted ''en'' @ '': '' @ quoted ''Hello'' @ ''}}''"

definition null_map_document :: string where
  "null_map_document = ''{'' @ quoted ''a'' @ '':null}''"

definition null_text_document :: string where
  "null_text_document = ''{'' @ quoted ''a'' @ '':{'' @ quoted ''en'' @ '':null}}''"

definition sample_fs :: filesystem where
  "sample_fs name =
     (if name = ''/etc/caddy/translations.json'' then Inr (Inr ''{}'')
      else if name = ''/etc/caddy/hello.json'' then Inr (Inr hello_document)
      else if name = ''/etc/caddy/trailing.json'' then Inr (Inr ''{} garbage'')
      else if name = ''/etc/caddy/null.json'' then Inr (Inr ''null'')
      else if name = ''/etc/caddy/null_map.json'' then Inr (Inr null_map_document)
      else if name = ''/etc/caddy/null_text.json'' then Inr (Inr null_text_document)
      else if name = ''/etc/caddy/broken.json'' then Inr (Inr ''{invalid json}'')
      else if name = ''/etc/caddy'' then Inr (Inl EISDIR)
      else if name = ''/root/secret.json'' then Inl EACCES
      else Inl ENOENT)"

section \<open>The scan and the replacement of one match\<close>


lemma not_digit_braces [simp]: "\<not> isDigit CHR ''{''" "\<not> isDigit CHR ''}''"
  by (simp_all add: isDigit_def)

lemma match_placeholder_token:
  assumes "ds \<noteq> []" "list_all isDigit ds"
  shows "match_placeholder (placeholder ds @ post) = Some (placeholder ds, post)"
proof -
  have tw: "takeWhile isDigit (ds @ CHR ''}'' # post) = ds"
    using assms(2) by (simp add: list_all_iff takeWhile_append2)
  have dw: "dropWhile isDigit (ds @ CHR ''}'' # post) = CHR ''}'' # post"
    using assms(2) by (simp add: list_all_iff dropWhile_append2)
  show ?thesis
    using assms(1) by (simp add: match_placeholder_def placeholder_def tw dw)
qed

lemma match_placeholder_shape:
  assumes "match_placeholder s = Some (m, rest)"
  shows "\<exists>ds. ds \<noteq> [] \<and> list_all isDigit ds \<and> m = placeholder ds \<and> s = m @ rest"
proof -
  from assms obtain c t where s: "s = c # t" by (cases s) (auto simp: match_placeholder_def)
  let ?ds = "takeWhile isDigit t" and ?r = "dropWhile isDigit t"
  from assms s have c: "c = CHR ''{''" and ne: "?ds \<noteq> []" and r: "?r \<noteq> []" "hd ?r = CHR ''}''"
    and m: "m = placeholder ?ds" and rest: "rest = tl ?r"
    by (auto simp: match_placeholder_def Let_def split: if_splits)
  have "list_all isDigit ?ds" by (simp add: list_all_iff) (meson set_takeWhileD)
  moreover from r have "?r = CHR ''}'' # tl ?r" by (cases ?r) auto
  then have "t = ?ds @ CHR ''}'' # tl ?r" by (metis takeWhile_dropWhile_id)
  then have "s = m @ rest" unfolding s c m rest placeholder_def by simp
  ultimately show ?thesis using ne m by blast
qed

lemma match_placeholder_extend:
  assumes "pre \<noteq> []"
  shows "match_placeholder (pre @ CHR ''{'' # x) =
         map_option (\<lambda>(m, r). (m, r @ CHR ''{'' # x)) (match_placeholder pre)"
proof -
  from assms obtain c t where pre: "pre = c # t" by (cases pre) auto
  show ?thesis
  proof (cases "\<forall>d\<in>set t. isDigit d")
    case True
    then have "takeWhile isDigit (t @ CHR ''{'' # x) = t" "dropWhile isDigit (t @ CHR ''{'' # x) = CHR ''{'' # x"
      "takeWhile isDigit t = t" "dropWhile isDigit t = []"
      by (simp_all add: takeWhile_append2 dropWhile_append2)
    then show ?thesis by (simp add: pre match_placeholder_def)
  next
    case False
    then have "takeWhile isDigit (t @ CHR ''{'' # x) = takeWhile isDigit t"
       "dropWhile isDigit (t @ CHR ''{'' # x) = dropWhile isDigit t @ CHR ''{'' # x"
       "dropWhile isDigit t \<noteq> []"
      by (auto simp add: takeWhile_append1 dropWhile_append1 dropWhile_eq_Nil_conv)
    then show ?thesis by (simp add: pre match_placeholder_def Let_def)
  qed
qed

lemma ReplaceAllStringFunc_token:
  assumes "ds \<noteq> []" "list_all isDigit ds"
  shows "ReplaceAllStringFunc (pre @ placeholder ds @ post) repl =
    (case ReplaceAllStringFunc pre repl of
       Inl p \<Rightarrow> Inl p
     | Inr a \<Rightarrow>
        (case repl (placeholder ds) of
           Inl p \<Rightarrow> Inl p
         | Inr r \<Rightarrow>
            (case ReplaceAllStringFunc post repl of
               Inl p \<Rightarrow> Inl p
             | Inr b \<Rightarrow> Inr (a @ r @ b))))"
proof (induction pre repl rule: ReplaceAllStringFunc.induct)
  case (1 repl)
  obtain t where t: "placeholder ds @ post = CHR ''{'' # t"
    by (simp add: placeholder_def)
  have "match_placeholder (CHR ''{'' # t) = Some (placeholder ds, post)"
    using match_placeholder_token[OF assms, of post] t by simp
  then show ?case
    by (simp add: t split: sum.splits)
next
  case (2 c cs repl)
  have ext: "match_placeholder (c # cs @ placeholder ds @ post) =
        map_option (\<lambda>(m, r). (m, r @ placeholder ds @ post)) (match_placeholder (c # cs))"
    using match_placeholder_extend[of "c # cs" "ds @ CHR ''}'' # post"]
    by (simp add: placeholder_def)
  show ?case
  proof (cases "match_placeholder (c # cs)")
    case None
    with ext have e: "match_placeholder (c # cs @ placeholder ds @ post) = None" by simp
    show ?thesis by (simp add: e None 2(1)[OF None] split: sum.splits)
  next
    case (Some mr)
    obtain m rest where mr: "mr = (m, rest)" by (cases mr)
    from Some mr ext have e: "match_placeholder (c # cs @ placeholder ds @ post)
        = Some (m, rest @ placeholder ds @ post)" by simp
    show ?thesis
    proof (cases "repl m")
      case (Inl p)
      with Some mr e show ?thesis by simp
    next
      case (Inr r)
      show ?thesis
        by (simp add: e Some mr Inr 2(2)[OF Some mr[symmetric] Inr] split: sum.splits)
    qed
  qed
qed

lemma isDigit_not_brace: "isDigit c \<Longrightarrow> c \<notin> set ''{}''"
  by (auto simp: isDigit_def)

lemma Trim_placeholder:
  assumes "ds \<noteq> []" "list_all isDigit ds"
  shows "Trim (placeholder ds) ''{}'' = ds"
proof -
  from assms have h: "hd ds \<notin> set ''{}''" and l: "last ds \<notin> set ''{}''"
    using hd_in_set[of ds] last_in_set[of ds] isDigit_not_brace[of "hd ds"] isDigit_not_brace[of "last ds"]
    by (auto simp: list_all_iff)
  from assms(1) obtain d t where ds: "ds = d # t" by (cases ds) auto
  from assms(1) obtain t' d' where ds': "ds = t' @ [d']" by (cases ds rule: rev_cases) auto
  have "TrimLeft (placeholder ds) ''{}'' = ds @ [CHR ''}'']"
    using h by (simp add: TrimLeft_def placeholder_def ds)
  moreover have "TrimRight (ds @ [CHR ''}'']) ''{}'' = ds"
    using l by (simp add: TrimRight_def ds')
  ultimately show ?thesis by (simp add: Trim_def)
qed

lemma Atoi_digits:
  assumes "ds \<noteq> []" "list_all isDigit ds"
  shows "Atoi intSize ds =
     (if digits_value ds \<ge> 2 ^ (intSize - 1) then None else Some (int (digits_value ds)))"
proof -
  from assms have "isDigit (hd ds)" by (cases ds) auto
  then have "hd ds \<noteq> CHR ''-''" "hd ds \<noteq> CHR ''+''" by (auto simp: isDigit_def)
  then show ?thesis using assms by (simp add: Atoi_def Let_def)
qed


lemma replace_match_token:
  assumes "ds \<noteq> []" "list_all isDigit ds"
  shows "replace_match intSize Sprint i lang args (placeholder ds) =
     (if digits_value ds \<ge> 2 ^ (intSize - 1) \<or> digits_value ds \<ge> length args
      then Inr (placeholder ds)
      else
        (case args ! digits_value ds of
           Str str \<Rightarrow>
             if HasPrefix str ''i18n:'' then
               (case translationsMap i (TrimPrefix str ''i18n:'') of
                  Some entry \<Rightarrow>
                    (case entry lang of
                       Some val \<Rightarrow> Inr val
                     | None \<Rightarrow>
                         (case entry ''en'' of
                            Some val \<Rightarrow> Inr val
                          | None \<Rightarrow> Inr (TrimPrefix str ''i18n:'')))
                | None \<Rightarrow> Inr (TrimPrefix str ''i18n:''))
             else Inr str
         | Other v \<Rightarrow> Inr (Sprint v)))"
  by (simp add: replace_match_def Trim_placeholder[OF assms] Atoi_digits[OF assms] Let_def
           split: arg.splits)

lemma replace_match_token_total:
  assumes "ds \<noteq> []" "list_all isDigit ds"
  shows "\<exists>r. replace_match intSize Sprint i lang args (placeholder ds) = Inr r"
  by (simp add: replace_match_token[OF assms] split: arg.splits option.splits)

lemma ReplaceAllStringFunc_total:
  assumes "\<And>ds. ds \<noteq> [] \<Longrightarrow> list_all isDigit ds \<Longrightarrow> \<exists>r. repl (placeholder ds) = Inr r"
  shows "\<exists>out. ReplaceAllStringFunc s repl = Inr out"
  using assms
proof (induction s repl rule: ReplaceAllStringFunc.induct)
  case (1 repl)
  show ?case by simp
next
  case (2 c cs repl)
  show ?case
  proof (cases "match_placeholder (c # cs)")
    case None
    from 2(1)[OF None 2(3)] obtain out where "ReplaceAllStringFunc cs repl = Inr out" by blast
    with None show ?thesis by simp
  next
    case (Some mr)
    obtain m rest where mr: "mr = (m, rest)" by (cases mr)
    from match_placeholder_shape[of "c # cs" m rest] Some mr
    obtain ds where ds: "ds \<noteq> []" "list_all isDigit ds" "m = placeholder ds" by auto
    from 2(3)[OF ds(1,2)] ds(3) obtain r where r: "repl m = Inr r" by auto
    from 2(2)[OF Some mr[symmetric] r 2(3)] obtain out
      where "ReplaceAllStringFunc rest repl = Inr out" by blast
    with Some mr r show ?thesis by simp
  qed
qed

lemma ReplaceAllStringFunc_unchanged:
  assumes "\<And>ds. ds \<noteq> [] \<Longrightarrow> list_all isDigit ds \<Longrightarrow> repl (placeholder ds) = Inr (placeholder ds)"
  shows "ReplaceAllStringFunc s repl = Inr s"
  using assms
proof (induction s repl rule: ReplaceAllStringFunc.induct)
  case (1 repl)
  show ?case by simp
next
  case (2 c cs repl)
  show ?case
  proof (cases "match_placeholder (c # cs)")
    case None
    with 2(1)[OF None 2(3)] show ?thesis by simp
  next
    case (Some mr)
    obtain m rest where mr: "mr = (m, rest)" by (cases mr)
    from match_placeholder_shape[of "c # cs" m rest] Some mr
    obtain ds where ds: "ds \<noteq> []" "list_all isDigit ds" "m = placeholder ds"
      and split: "c # cs = m @ rest" by auto
    from 2(3)[OF ds(1,2)] ds(3) have r: "repl m = Inr m" by auto
    from 2(2)[OF Some mr[symmetric] r 2(3)]
    have "ReplaceAllStringFunc rest repl = Inr rest" by blast
    with Some mr r have "ReplaceAllStringFunc (c # cs) repl = Inr (m @ rest)" by simp
    then show ?thesis by (simp only: split)
  qed
qed

lemma ReplaceAllStringFunc_no_match:
  assumes "\<not> has_placeholder s"
  shows "ReplaceAllStringFunc s repl = Inr s"
  using assms
proof (induction s)
  case Nil
  show ?case by simp
next
  case (Cons c cs)
  from Cons.prems have n: "match_placeholder (c # cs) = None" and "\<not> has_placeholder cs"
    by (cases "match_placeholder (c # cs)", simp_all)+
  with Cons.IH show ?case by simp
qed

lemma has_placeholder_iff: "has_placeholder s \<longleftrightarrow> contains_placeholder s"
proof
  assume "has_placeholder s"
  then show "contains_placeholder s"
  proof (induction s)
    case Nil
    then show ?case by simp
  next
    case (Cons c cs)
    show ?case
    proof (cases "match_placeholder (c # cs)")
      case None
      with Cons obtain pre ds post where "ds \<noteq> []" "list_all isDigit ds" "cs = pre @ placeholder ds @ post"
        by (auto simp: contains_placeholder_def)
      then have "ds \<noteq> [] \<and> list_all isDigit ds \<and> c # cs = (c # pre) @ placeholder ds @ post" by simp
      then show ?thesis unfolding contains_placeholder_def by blast
    next
      case (Some mr)
      obtain m rest where mr: "mr = (m, rest)" by (cases mr)
      from match_placeholder_shape[of "c # cs" m rest] Some mr
      obtain ds where "ds \<noteq> []" "list_all isDigit ds" "c # cs = [] @ placeholder ds @ rest" by auto
      then show ?thesis unfolding contains_placeholder_def by blast
    qed
  qed
next
  assume "contains_placeholder s"
  then obtain pre ds post where ds: "ds \<noteq> []" "list_all isDigit ds" and s: "s = pre @ placeholder ds @ post"
    by (auto simp: contains_placeholder_def)
  have "has_placeholder (pre @ placeholder ds @ post)"
  proof (induction pre)
    case Nil
    obtain t where t: "placeholder ds @ post = CHR ''{'' # t" by (simp add: placeholder_def)
    with match_placeholder_token[OF ds, of post] show ?case by simp
  next
    case (Cons c cs)
    then show ?case by simp
  qed
  with s show "has_placeholder s" by simp
qed

lemma replace_match_cong:
  "translationsMap i = translationsMap j \<Longrightarrow>
   replace_match intSize Sprint i lang args = replace_match intSize Sprint j lang args"
proof -
  assume a: "translationsMap i = translationsMap j"
  show ?thesis unfolding replace_match_def a ..
qed

lemma interpolateTranslations_cong:
  "translationsMap i = translationsMap j \<Longrightarrow>
   interpolateTranslations intSize Sprint i tmpl lang args =
   interpolateTranslations intSize Sprint j tmpl lang args"
  by (simp add: interpolateTranslations_def replace_match_cong[of i j])

section \<open>The template function as a whole\<close>

lemma interpolateTranslations_total:
  "\<exists>out. interpolateTranslations intSize Sprint i tmpl lang args = Inr out"
  unfolding interpolateTranslations_def
  by (rule ReplaceAllStringFunc_total) (rule replace_match_token_total)

lemma translate_locked_total:
  "\<exists>text i'. translate_locked intSize Sprint i key lang args = Inr ((text, None), i')"
proof -
  have "\<exists>text i'. interpolate_and_return intSize Sprint j val lang args = Inr ((text, None), i')"
    for j val
    using interpolateTranslations_total[of intSize Sprint j val lang args]
    by (auto simp: interpolate_and_return_def)
  then show ?thesis
    by (simp add: translate_locked_def split: option.splits)
qed

lemma translate_locked_frame:
  assumes "translate_locked intSize Sprint i key lang args = Inr (res, i')"
  shows "translationsMap i' = translationsMap i \<and> mu i' = mu i \<and> DictFile i' = DictFile i"
  using assms
  by (auto simp: translate_locked_def interpolate_and_return_def log_to_def
           split: option.splits if_splits sum.splits)

lemma i18nTranslate_unlocked:
  assumes "mu i = Some n"
  shows "i18nTranslate intSize Sprint i key lang args =
         translate_locked intSize Sprint i key lang args"
proof -
  let ?j = "i\<lparr>mu := Some (Suc n)\<rparr>"
  have tm: "translationsMap ?j = translationsMap i" by simp
  have ia: "interpolate_and_return intSize Sprint (k\<lparr>mu := Some (Suc n)\<rparr>) val lang args =
        (case interpolate_and_return intSize Sprint k val lang args of
           Inl p \<Rightarrow> Inl p | Inr (res, k') \<Rightarrow> Inr (res, k'\<lparr>mu := Some (Suc n)\<rparr>))" for k val
    using interpolateTranslations_cong[of "k\<lparr>mu := Some (Suc n)\<rparr>" k intSize Sprint val lang args]
    by (simp add: interpolate_and_return_def split: sum.splits)
  have lg: "log_to lvl msg kvs (k\<lparr>mu := m\<rparr>) = (log_to lvl msg kvs k)\<lparr>mu := m\<rparr>" for lvl msg kvs k m
    by (simp add: log_to_def split: option.splits)
  have tl: "translate_locked intSize Sprint ?j key lang args =
        (case translate_locked intSize Sprint i key lang args of
           Inl p \<Rightarrow> Inl p | Inr (res, k') \<Rightarrow> Inr (res, k'\<lparr>mu := Some (Suc n)\<rparr>))"
    by (simp add: translate_locked_def ia lg split: option.splits)
  show ?thesis
  proof (cases "translate_locked intSize Sprint i key lang args")
    case (Inl p)
    with tl assms show ?thesis by (simp add: i18nTranslate_def RLock_def)
  next
    case (Inr r)
    obtain res k' where r: "r = (res, k')" by (cases r)
    from translate_locked_frame[of intSize Sprint i key lang args res k'] Inr r assms
    have "mu k' = Some n" by simp
    then have "k'\<lparr>mu := Some n\<rparr> = k'" by simp
    with tl Inr r assms show ?thesis
      by (simp add: i18nTranslate_def RLock_def RUnlock_def)
  qed
qed

lemma interpolateTranslations_no_args:
  "interpolateTranslations intSize Sprint i tmpl lang [] = Inr tmpl"
  unfolding interpolateTranslations_def
  by (rule ReplaceAllStringFunc_unchanged) (simp add: replace_match_token)

lemma i18nTranslate_chosen:
  assumes "mu i = Some n" and "translationsMap i key = Some entry"
    and "entry lang = Some tmpl \<or> (entry lang = None \<and> entry ''en'' = Some tmpl)"
    and "interpolateTranslations intSize Sprint i tmpl lang args = Inr out"
  shows "\<exists>i'. i18nTranslate intSize Sprint i key lang args = Inr ((out, None), i')"
proof -
  have c: "interpolateTranslations intSize Sprint (log_to lvl msg kvs i) tmpl lang args = Inr out"
    for lvl msg kvs
    using assms(4)
      interpolateTranslations_cong[of "log_to lvl msg kvs i" i intSize Sprint tmpl lang args]
    by (simp add: log_to_def split: option.splits)
  have e: "args = [] \<Longrightarrow> out = tmpl"
    using assms(4) by (simp add: interpolateTranslations_no_args)
  from assms(3) show ?thesis
  proof
    assume "entry lang = Some tmpl"
    with assms(2,4) e show ?thesis
      by (simp add: i18nTranslate_unlocked[OF assms(1)] translate_locked_def
            interpolate_and_return_def)
  next
    assume "entry lang = None \<and> entry ''en'' = Some tmpl"
    with assms(2) c e show ?thesis
      by (simp add: i18nTranslate_unlocked[OF assms(1)] translate_locked_def
            interpolate_and_return_def)
  qed
qed

lemma interpolateTranslations_token:
  assumes "ds \<noteq> []" and "list_all isDigit ds"
    and "replace_match intSize Sprint i lang args (placeholder ds) = Inr r"
  shows "\<exists>a b. interpolateTranslations intSize Sprint i pre lang args = Inr a
           \<and> interpolateTranslations intSize Sprint i post lang args = Inr b
           \<and> interpolateTranslations intSize Sprint i (pre @ placeholder ds @ post) lang args =
               Inr (a @ r @ b)"
proof -
  obtain a where a: "interpolateTranslations intSize Sprint i pre lang args = Inr a"
    using interpolateTranslations_total by blast
  obtain b where b: "interpolateTranslations intSize Sprint i post lang args = Inr b"
    using interpolateTranslations_total by blast
  from a b assms(3) have "interpolateTranslations intSize Sprint i (pre @ placeholder ds @ post) lang args =
               Inr (a @ r @ b)"
    unfolding interpolateTranslations_def
    by (simp add: ReplaceAllStringFunc_token[OF assms(1,2)])
  with a b show ?thesis by blast
qed

lemma i18nTranslate_token:
  assumes "mu i = Some n" and "translationsMap i key = Some entry"
    and "entry lang = Some tmpl \<or> (entry lang = None \<and> entry ''en'' = Some tmpl)"
    and "tmpl = pre @ placeholder ds @ post" and "ds \<noteq> []" and "list_all isDigit ds"
    and "replace_match intSize Sprint i lang args (placeholder ds) = Inr r"
  shows "\<exists>a b i'. interpolateTranslations intSize Sprint i pre lang args = Inr a
           \<and> interpolateTranslations intSize Sprint i post lang args = Inr b
           \<and> i18nTranslate intSize Sprint i key lang args = Inr ((a @ r @ b, None), i')"
proof -
  from interpolateTranslations_token[OF assms(5,6,7), of pre post]
  obtain a b where a: "interpolateTranslations intSize Sprint i pre lang args = Inr a"
    and b: "interpolateTranslations intSize Sprint i post lang args = Inr b"
    and t: "interpolateTranslations intSize Sprint i tmpl lang args = Inr (a @ r @ b)"
    unfolding assms(4) by blast
  from i18nTranslate_chosen[OF assms(1,2,3) t] a b show ?thesis by blast
qed

lemmas scan_defs =
  interpolateTranslations_def match_placeholder_def placeholder_def replace_match_def
  Trim_def TrimLeft_def TrimRight_def Atoi_def isDigit_def digits_value_def digit_of_def
  HasPrefix_def TrimPrefix_def Let_def

section \<open>Resolution, totality and the frame of a call\<close>

text \<open>
  Claim C1. With no interpolation arguments, \<open>i18nTranslate\<close> returns the stored text for the
  key and the requested language when both are present; otherwise the key's \<open>en\<close> text when
  that is present; otherwise the key itself, both when the key is absent (the empty key then
  gives the empty string) and when the key has neither the language nor \<open>en\<close>. In each case
  the call returns normally with a nil error.
\<close>

theorem i18nTranslate_resolution:
  assumes "mu i = Some n"
  shows "(\<forall>entry text. translationsMap i key = Some entry \<and> entry lang = Some text \<longrightarrow>
            (\<exists>i'. i18nTranslate intSize Sprint i key lang [] = Inr ((text, None), i')))
       \<and> (\<forall>entry text. translationsMap i key = Some entry \<and> entry lang = None
              \<and> entry ''en'' = Some text \<longrightarrow>
            (\<exists>i'. i18nTranslate intSize Sprint i key lang [] = Inr ((text, None), i')))
       \<and> (translationsMap i key = None \<longrightarrow>
            (\<exists>i'. i18nTranslate intSize Sprint i key lang [] = Inr ((key, None), i')))
       \<and> (translationsMap i [] = None \<longrightarrow>
            (\<exists>i'. i18nTranslate intSize Sprint i [] lang [] = Inr (([], None), i')))
       \<and> (\<forall>entry. translationsMap i key = Some entry \<and> entry lang = None
              \<and> entry ''en'' = None \<longrightarrow>
            (\<exists>i'. i18nTranslate intSize Sprint i key lang [] = Inr ((key, None), i')))"
  by (simp add: i18nTranslate_unlocked[OF assms] translate_locked_def
        interpolate_and_return_def)

theorem i18nTranslate_resolution_witness:
  "mu sample_module = Some 0
   \<and> (\<exists>i'. i18nTranslate 64 Sprint_nil sample_module ''hello'' ''de'' [] =
          Inr ((''Hallo'', None), i'))
   \<and> (\<exists>i'. i18nTranslate 64 Sprint_nil sample_module ''goodbye'' ''de'' [] =
          Inr ((''Goodbye'', None), i'))
   \<and> (\<exists>i'. i18nTranslate 64 Sprint_nil sample_module ''nonexistent'' ''en'' [] =
          Inr ((''nonexistent'', None), i'))
   \<and> (\<exists>i'. i18nTranslate 64 Sprint_nil sample_module [] ''en'' [] = Inr (([], None), i'))
   \<and> (\<exists>i'. i18nTranslate 64 Sprint_nil sample_module ''bonjour'' ''de'' [] =
          Inr ((''bonjour'', None), i'))"
proof -
  have m: "mu sample_module = Some 0" by (simp add: sample_module_def)
  note r = i18nTranslate_resolution[OF m, of _ _ 64 Sprint_nil]
  have "translationsMap sample_module ''hello'' = Some [''de'' \<mapsto> ''Hallo'', ''en'' \<mapsto> ''Hello'']"
    by (simp add: sample_module_def sample_translations_def)
  with r[of "''hello''" "''de''"]
  have 1: "\<exists>i'. i18nTranslate 64 Sprint_nil sample_module ''hello'' ''de'' [] =
          Inr ((''Hallo'', None), i')" by simp
  have "translationsMap sample_module ''goodbye'' = Some [''en'' \<mapsto> ''Goodbye'']"
    by (simp add: sample_module_def sample_translations_def)
  with r[of "''goodbye''" "''de''"]
  have 2: "\<exists>i'. i18nTranslate 64 Sprint_nil sample_module ''goodbye'' ''de'' [] =
          Inr ((''Goodbye'', None), i')" by simp
  have "translationsMap sample_module ''nonexistent'' = None"
    by (simp add: sample_module_def sample_translations_def)
  with r[of "''nonexistent''" "''en''"]
  have 3: "\<exists>i'. i18nTranslate 64 Sprint_nil sample_module ''nonexistent'' ''en'' [] =
          Inr ((''nonexistent'', None), i')" by simp
  have "translationsMap sample_module [] = None"
    by (simp add: sample_module_def sample_translations_def)
  with r[of "[]" "''en''"]
  have 4: "\<exists>i'. i18nTranslate 64 Sprint_nil sample_module [] ''en'' [] = Inr (([], None), i')"
    by simp
  have "translationsMap sample_module ''bonjour'' = Some [''fr'' \<mapsto> ''Bonjour'']"
    by (simp add: sample_module_def sample_translations_def)
  with r[of "''bonjour''" "''de''"]
  have 5: "\<exists>i'. i18nTranslate 64 Sprint_nil sample_module ''bonjour'' ''de'' [] =
          Inr ((''bonjour'', None), i')" by simp
  from m 1 2 3 4 5 show ?thesis by blast
qed

text \<open>
  Claim C5. For every dictionary, key, language and argument list, \<open>i18nTranslate\<close> on a
  provisioned module returns: it yields a string and a nil error, and it does not panic.
\<close>

theorem i18nTranslate_total:
  assumes "mu i \<noteq> None"
  shows "\<exists>text i'. i18nTranslate intSize Sprint i key lang args = Inr ((text, None), i')"
proof -
  from assms obtain n where n: "mu i = Some n" by auto
  show ?thesis
    using translate_locked_total[of intSize Sprint i key lang args]
    by (simp add: i18nTranslate_unlocked[OF n])
qed

theorem i18nTranslate_total_witness:
  "mu sample_module \<noteq> None
   \<and> (\<exists>text i'. i18nTranslate 64 Sprint_nil sample_module ''msg'' ''fr''
          [Str ''hello'', Other (), Str ''i18n:loop''] = Inr ((text, None), i'))"
proof -
  have m: "mu sample_module \<noteq> None" by (simp add: sample_module_def)
  from m i18nTranslate_total[OF m] show ?thesis by blast
qed

text \<open>
  Claim C8. A call of \<open>i18nTranslate\<close> only reads the dictionary: it returns, and in the
  module after the call the translations map is the one before the call (so are the
  dictionary path and the lock).
\<close>

theorem i18nTranslate_reads_only:
  assumes "mu i = Some n"
  shows "\<exists>res i'. i18nTranslate intSize Sprint i key lang args = Inr (res, i')
           \<and> translationsMap i' = translationsMap i \<and> DictFile i' = DictFile i \<and> mu i' = mu i"
proof -
  obtain out i' where r: "translate_locked intSize Sprint i key lang args = Inr ((out, None), i')"
    using translate_locked_total[of intSize Sprint i key lang args] by blast
  from translate_locked_frame[OF r] r show ?thesis
    by (simp add: i18nTranslate_unlocked[OF assms])
qed

theorem i18nTranslate_reads_only_witness:
  "mu sample_module = Some 0
   \<and> (\<exists>res i'. i18nTranslate 64 Sprint_nil sample_module ''goodbye'' ''de'' [Str ''x''] = Inr (res, i')
          \<and> translationsMap i' = sample_translations)"
proof -
  have m: "mu sample_module = Some 0" by (simp add: sample_module_def)
  have t: "translationsMap sample_module = sample_translations" by (simp add: sample_module_def)
  from i18nTranslate_reads_only[OF m, of 64 Sprint_nil "''goodbye''" "''de''" "[Str ''x'']"] m t
  show ?thesis by auto
qed

section \<open>Placeholders that are not substituted\<close>

text \<open>
  Claim C4. A placeholder token of the chosen template whose index is greater than or equal
  to the number of arguments is left in the output as the token itself, with no error; the
  text before and after it is interpolated as usual. Example: the template
  \<open>Value: {0} and {5}\<close> with the one argument \<open>hello\<close> gives \<open>Value: hello and {5}\<close>.
\<close>

theorem out_of_range_placeholder_unchanged:
  assumes "mu i = Some n" and "translationsMap i key = Some entry"
    and "entry lang = Some tmpl \<or> (entry lang = None \<and> entry ''en'' = Some tmpl)"
    and "tmpl = pre @ placeholder ds @ post" and "ds \<noteq> []" and "list_all isDigit ds"
    and "length args \<le> digits_value ds"
  shows "\<exists>a b i'. interpolateTranslations intSize Sprint i pre lang args = Inr a
           \<and> interpolateTranslations intSize Sprint i post lang args = Inr b
           \<and> i18nTranslate intSize Sprint i key lang args =
               Inr ((a @ placeholder ds @ b, None), i')"
proof -
  have "replace_match intSize Sprint i lang args (placeholder ds) = Inr (placeholder ds)"
    using assms(7) by (simp add: replace_match_token[OF assms(5,6)])
  from i18nTranslate_token[OF assms(1-6) this] show ?thesis .
qed

theorem out_of_range_placeholder_unchanged_witness:
  "mu sample_module = Some 0
   \<and> translationsMap sample_module ''msg'' = Some [''en'' \<mapsto> ''Value: {0} and {5}'']
   \<and> length [Str ''hello'' :: unit arg] \<le> digits_value ''5''
   \<and> (\<exists>i'. i18nTranslate 64 Sprint_nil sample_module ''msg'' ''en'' [Str ''hello''] =
          Inr ((''Value: hello and {5}'', None), i'))"
proof -
  have m: "mu sample_module = Some 0" by (simp add: sample_module_def)
  have k: "translationsMap sample_module ''msg'' = Some [''en'' \<mapsto> ''Value: {0} and {5}'']"
    by (simp add: sample_module_def sample_translations_def)
  have l: "length [Str ''hello'' :: unit arg] \<le> digits_value ''5''"
    by (simp add: digits_value_def digit_of_def)
  have a: "interpolateTranslations 64 Sprint_nil sample_module ''Value: {0} and '' ''en''
             [Str ''hello''] = Inr ''Value: hello and ''"
    by (simp add: scan_defs)
  have b: "interpolateTranslations 64 Sprint_nil sample_module [] ''en''
             [Str ''hello''] = Inr []"
    by (simp add: interpolateTranslations_def)
  have c: "[''en'' \<mapsto> ''Value: {0} and {5}''] ''en'' = Some ''Value: {0} and {5}''
        \<or> ([''en'' \<mapsto> ''Value: {0} and {5}''] ''en'' = None
            \<and> [''en'' \<mapsto> ''Value: {0} and {5}''] ''en'' = Some ''Value: {0} and {5}'')"
    by simp
  have t: "''Value: {0} and {5}'' = ''Value: {0} and '' @ placeholder ''5'' @ []"
    by (simp add: placeholder_def)
  have d: "''5'' \<noteq> []" "list_all isDigit ''5''"
    by (simp_all add: isDigit_def)
  from out_of_range_placeholder_unchanged[OF m k c t d l, of 64 Sprint_nil]
  obtain a' b' i' where
    "interpolateTranslations 64 Sprint_nil sample_module ''Value: {0} and '' ''en''
       [Str ''hello''] = Inr a'"
    "interpolateTranslations 64 Sprint_nil sample_module [] ''en'' [Str ''hello''] = Inr b'"
    "i18nTranslate 64 Sprint_nil sample_module ''msg'' ''en'' [Str ''hello''] =
       Inr ((a' @ placeholder ''5'' @ b', None), i')"
    by blast
  with a b have "i18nTranslate 64 Sprint_nil sample_module ''msg'' ''en'' [Str ''hello''] =
       Inr ((''Value: hello and {5}'', None), i')"
    by (simp add: placeholder_def)
  with m k l show ?thesis by (intro conjI exI)
qed

text \<open>
  Claim C9. A placeholder token whose digit string \<open>strconv.Atoi\<close> rejects, as it does every
  digit string whose value is beyond the platform's \<open>int\<close>, is left in the output as the
  token itself, like an index out of range: the call returns normally with a nil error.
  Example: \<open>{99999999999999999999}\<close> with 64-bit \<open>int\<close>.
\<close>

theorem unparsable_placeholder_unchanged:
  assumes "mu i = Some n" and "translationsMap i key = Some entry"
    and "entry lang = Some tmpl \<or> (entry lang = None \<and> entry ''en'' = Some tmpl)"
    and "tmpl = pre @ placeholder ds @ post" and "ds \<noteq> []" and "list_all isDigit ds"
    and "Atoi intSize ds = None"
  shows "2 ^ (intSize - 1) \<le> digits_value ds
       \<and> (\<exists>a b i'. interpolateTranslations intSize Sprint i pre lang args = Inr a
             \<and> interpolateTranslations intSize Sprint i post lang args = Inr b
             \<and> i18nTranslate intSize Sprint i key lang args =
                 Inr ((a @ placeholder ds @ b, None), i'))"
proof -
  from assms(7) have big: "2 ^ (intSize - 1) \<le> digits_value ds"
    by (simp add: Atoi_digits[OF assms(5,6)] split: if_splits)
  then have "replace_match intSize Sprint i lang args (placeholder ds) = Inr (placeholder ds)"
    by (simp add: replace_match_token[OF assms(5,6)])
  from i18nTranslate_token[OF assms(1-6) this] big show ?thesis by blast
qed

theorem unparsable_placeholder_unchanged_witness:
  "mu sample_module = Some 0
   \<and> translationsMap sample_module ''big'' = Some [''en'' \<mapsto> ''{99999999999999999999}!'']
   \<and> Atoi 64 ''99999999999999999999'' = None
   \<and> (\<exists>i'. i18nTranslate 64 Sprint_nil sample_module ''big'' ''de'' [Str ''x''] =
          Inr ((''{99999999999999999999}!'', None), i'))"
proof -
  have m: "mu sample_module = Some 0" by (simp add: sample_module_def)
  have k: "translationsMap sample_module ''big'' = Some [''en'' \<mapsto> ''{99999999999999999999}!'']"
    by (simp add: sample_module_def sample_translations_def)
  have p: "Atoi 64 ''99999999999999999999'' = None"
    by (simp add: scan_defs)
  have a: "interpolateTranslations 64 Sprint_nil sample_module [] ''de'' [Str ''x''] = Inr []"
    by (simp add: interpolateTranslations_def)
  have b: "interpolateTranslations 64 Sprint_nil sample_module ''!'' ''de'' [Str ''x''] = Inr ''!''"
    by (simp add: scan_defs)
  have c: "[''en'' \<mapsto> ''{99999999999999999999}!''] ''de'' = Some ''{99999999999999999999}!''
        \<or> ([''en'' \<mapsto> ''{99999999999999999999}!''] ''de'' = None
            \<and> [''en'' \<mapsto> ''{99999999999999999999}!''] ''en'' = Some ''{99999999999999999999}!'')"
    by simp
  have t: "''{99999999999999999999}!'' = [] @ placeholder ''99999999999999999999'' @ ''!''"
    by (simp add: placeholder_def)
  have d: "''99999999999999999999'' \<noteq> []" "list_all isDigit ''99999999999999999999''"
    by (simp_all add: isDigit_def)
  from unparsable_placeholder_unchanged[OF m k c t d p, of Sprint_nil "[Str ''x'']"]
  obtain a' b' i' where
    "interpolateTranslations 64 Sprint_nil sample_module [] ''de'' [Str ''x''] = Inr a'"
    "interpolateTranslations 64 Sprint_nil sample_module ''!'' ''de'' [Str ''x''] = Inr b'"
    "i18nTranslate 64 Sprint_nil sample_module ''big'' ''de'' [Str ''x''] =
       Inr ((a' @ placeholder ''99999999999999999999'' @ b', None), i')"
    by blast
  with a b have "i18nTranslate 64 Sprint_nil sample_module ''big'' ''de'' [Str ''x''] =
       Inr ((''{99999999999999999999}!'', None), i')"
    by (simp add: placeholder_def)
  with m k p show ?thesis by (intro conjI exI)
qed

section \<open>Placeholders that are substituted\<close>

lemma HasPrefix_append: "HasPrefix (p @ s) p"
  by (simp add: HasPrefix_def)

lemma TrimPrefix_append: "TrimPrefix (p @ s) p = s"
  by (simp add: TrimPrefix_def HasPrefix_def)

text \<open>
  Claim C2. For a placeholder token of the chosen template whose index is within the
  argument list and whose argument is a string with the prefix \<open>i18n:\<close>, the token is
  replaced by the resolution of the rest of that string as a key under the requested
  language: the key's text for that language, else its \<open>en\<close> text, else the key itself (also
  when the dictionary has no such key). The requested language is used for this also when the
  template itself came from the \<open>en\<close> fallback.
\<close>

theorem nested_key_resolution:
  assumes "mu i = Some n" and "translationsMap i key = Some entry"
    and "entry lang = Some tmpl \<or> (entry lang = None \<and> entry ''en'' = Some tmpl)"
    and "tmpl = pre @ placeholder ds @ post" and "ds \<noteq> []" and "list_all isDigit ds"
    and "digits_value ds < length args" and "length args < 2 ^ (intSize - 1)"
    and "args ! digits_value ds = Str (''i18n:'' @ nested)"
  shows "\<exists>a b i'. interpolateTranslations intSize Sprint i pre lang args = Inr a
           \<and> interpolateTranslations intSize Sprint i post lang args = Inr b
           \<and> i18nTranslate intSize Sprint i key lang args =
               Inr ((a @
                     (case translationsMap i nested of
                        None \<Rightarrow> nested
                      | Some e \<Rightarrow>
                          (case e lang of
                             Some v \<Rightarrow> v
                           | None \<Rightarrow> (case e ''en'' of Some v \<Rightarrow> v | None \<Rightarrow> nested)))
                     @ b, None), i')"
proof -
  have "replace_match intSize Sprint i lang args (placeholder ds) =
      Inr (case translationsMap i nested of
                        None \<Rightarrow> nested
                      | Some e \<Rightarrow>
                          (case e lang of
                             Some v \<Rightarrow> v
                           | None \<Rightarrow> (case e ''en'' of Some v \<Rightarrow> v | None \<Rightarrow> nested)))"
  proof -
    define str where "str = ''i18n:'' @ nested"
    have "HasPrefix str ''i18n:''" and "TrimPrefix str ''i18n:'' = nested"
      and "args ! digits_value ds = Str str"
      unfolding str_def using assms(9) by (simp_all only: HasPrefix_append TrimPrefix_append)
    with assms(7,8) show ?thesis
      by (simp add: replace_match_token[OF assms(5,6)] split: option.splits)
  qed
  from i18nTranslate_token[OF assms(1-6) this] show ?thesis .
qed

theorem nested_key_resolution_witness:
  "mu sample_module = Some 0
   \<and> translationsMap sample_module ''typ'' = Some [''en'' \<mapsto> ''Type: {0}'']
   \<and> [''en'' \<mapsto> ''Type: {0}''] ''de'' = None
   \<and> digits_value ''0'' < length [Str ''i18n:account'' :: unit arg]
   \<and> length [Str ''i18n:account'' :: unit arg] < 2 ^ (64 - 1)
   \<and> (\<exists>i'. i18nTranslate 64 Sprint_nil sample_module ''typ'' ''de'' [Str ''i18n:account''] =
          Inr ((''Type: Konto'', None), i'))"
proof -
  have m: "mu sample_module = Some 0" by (simp add: sample_module_def)
  have k: "translationsMap sample_module ''typ'' = Some [''en'' \<mapsto> ''Type: {0}'']"
    by (simp add: sample_module_def sample_translations_def)
  have c: "[''en'' \<mapsto> ''Type: {0}''] ''de'' = None" by simp
  have d: "digits_value ''0'' < length [Str ''i18n:account'' :: unit arg]"
    by (simp add: digits_value_def digit_of_def)
  have l: "length [Str ''i18n:account'' :: unit arg] < 2 ^ (64 - 1)" by simp
  have a: "interpolateTranslations 64 Sprint_nil sample_module ''Type: '' ''de''
             [Str ''i18n:account''] = Inr ''Type: ''"
    by (simp add: scan_defs)
  have b: "interpolateTranslations 64 Sprint_nil sample_module [] ''de''
             [Str ''i18n:account''] = Inr []"
    by (simp add: interpolateTranslations_def)
  have t: "translationsMap sample_module ''account'' = Some [''de'' \<mapsto> ''Konto'', ''en'' \<mapsto> ''Account'']"
    by (simp add: sample_module_def sample_translations_def)
  have e: "[''en'' \<mapsto> ''Type: {0}''] ''de'' = Some ''Type: {0}''
        \<or> ([''en'' \<mapsto> ''Type: {0}''] ''de'' = None
            \<and> [''en'' \<mapsto> ''Type: {0}''] ''en'' = Some ''Type: {0}'')"
    by simp
  have s: "''Type: {0}'' = ''Type: '' @ placeholder ''0'' @ []"
    by (simp add: placeholder_def)
  have g: "''0'' \<noteq> []" "list_all isDigit ''0''"
    by (simp_all add: isDigit_def)
  have x: "[Str ''i18n:account'' :: unit arg] ! digits_value ''0'' = Str (''i18n:'' @ ''account'')"
    by (simp add: digits_value_def digit_of_def)
  from nested_key_resolution[OF m k e s g d l x, of Sprint_nil]
  obtain a' b' i' where
    "interpolateTranslations 64 Sprint_nil sample_module ''Type: '' ''de''
       [Str ''i18n:account''] = Inr a'"
    "interpolateTranslations 64 Sprint_nil sample_module [] ''de'' [Str ''i18n:account''] = Inr b'"
    "i18nTranslate 64 Sprint_nil sample_module ''typ'' ''de'' [Str ''i18n:account''] =
       Inr ((a' @ (case translationsMap sample_module ''account'' of
                     None \<Rightarrow> ''account''
                   | Some e \<Rightarrow>
                       (case e ''de'' of
                          Some v \<Rightarrow> v
                        | None \<Rightarrow> (case e ''en'' of Some v \<Rightarrow> v | None \<Rightarrow> ''account'')))
                @ b', None), i')"
    by blast
  with a b t have "i18nTranslate 64 Sprint_nil sample_module ''typ'' ''de'' [Str ''i18n:account''] =
       Inr ((''Type: Konto'', None), i')"
    by simp
  with m k c d l show ?thesis by (intro conjI exI)
qed

text \<open>
  Claim C3. Interpolation is one pass over the template: the output is the interpolation of
  the text before a token, then what the token is replaced by, then the interpolation of the
  text after it, and the replacement is not scanned again. In particular, when the token's
  argument names a nested key whose value itself contains a placeholder token, that value
  stands in the output as it is stored, so expansion is one level deep for every dictionary,
  cyclic ones included.
\<close>

theorem interpolation_single_pass:
  assumes "mu i = Some n" and "translationsMap i key = Some entry"
    and "entry lang = Some tmpl \<or> (entry lang = None \<and> entry ''en'' = Some tmpl)"
    and "tmpl = pre @ placeholder ds @ post" and "ds \<noteq> []" and "list_all isDigit ds"
  shows "\<exists>a r b i'. interpolateTranslations intSize Sprint i pre lang args = Inr a
           \<and> replace_match intSize Sprint i lang args (placeholder ds) = Inr r
           \<and> interpolateTranslations intSize Sprint i post lang args = Inr b
           \<and> i18nTranslate intSize Sprint i key lang args = Inr ((a @ r @ b, None), i')
           \<and> (\<forall>nested e x ds' y.
                 digits_value ds < length args \<and> length args < 2 ^ (intSize - 1)
                 \<and> args ! digits_value ds = Str (''i18n:'' @ nested)
                 \<and> translationsMap i nested = Some e
                 \<and> (e lang = Some (x @ placeholder ds' @ y)
                      \<or> (e lang = None \<and> e ''en'' = Some (x @ placeholder ds' @ y)))
                 \<longrightarrow> r = x @ placeholder ds' @ y)"
proof -
  obtain r where r: "replace_match intSize Sprint i lang args (placeholder ds) = Inr r"
    using replace_match_token_total[OF assms(5,6)] by blast
  have nested: "r = v"
    if "digits_value ds < length args" and "length args < 2 ^ (intSize - 1)"
      and "args ! digits_value ds = Str (''i18n:'' @ nested)"
      and "translationsMap i nested = Some e"
      and "e lang = Some v \<or> (e lang = None \<and> e ''en'' = Some v)"
    for nested e v
  proof -
    define str where "str = ''i18n:'' @ nested"
    have "HasPrefix str ''i18n:''" and "TrimPrefix str ''i18n:'' = nested"
      and "args ! digits_value ds = Str str"
      unfolding str_def using that(3) by (simp_all only: HasPrefix_append TrimPrefix_append)
    with that(1,2,4,5) r show ?thesis
      by (auto simp add: replace_match_token[OF assms(5,6)])
  qed
  from i18nTranslate_token[OF assms(1-6) r]
  obtain a b i' where "interpolateTranslations intSize Sprint i pre lang args = Inr a"
    "interpolateTranslations intSize Sprint i post lang args = Inr b"
    "i18nTranslate intSize Sprint i key lang args = Inr ((a @ r @ b, None), i')"
    by blast
  with r nested show ?thesis by blast
qed

theorem interpolation_single_pass_witness:
  "mu sample_module = Some 0
   \<and> translationsMap sample_module ''loop'' = Some [''en'' \<mapsto> ''<{0}>'']
   \<and> (\<exists>i'. i18nTranslate 64 Sprint_nil sample_module ''loop'' ''en'' [Str ''i18n:loop''] =
          Inr ((''<<{0}>>'', None), i'))"
proof -
  have m: "mu sample_module = Some 0" by (simp add: sample_module_def)
  have k: "translationsMap sample_module ''loop'' = Some [''en'' \<mapsto> ''<{0}>'']"
    by (simp add: sample_module_def sample_translations_def)
  have a: "interpolateTranslations 64 Sprint_nil sample_module ''<'' ''en''
             [Str ''i18n:loop''] = Inr ''<''"
    by (simp add: scan_defs)
  have b: "interpolateTranslations 64 Sprint_nil sample_module ''>'' ''en''
             [Str ''i18n:loop''] = Inr ''>''"
    by (simp add: scan_defs)
  have e: "[''en'' \<mapsto> ''<{0}>''] ''en'' = Some ''<{0}>''
        \<or> ([''en'' \<mapsto> ''<{0}>''] ''en'' = None \<and> [''en'' \<mapsto> ''<{0}>''] ''en'' = Some ''<{0}>'')"
    by simp
  have s: "''<{0}>'' = ''<'' @ placeholder ''0'' @ ''>''"
    by (simp add: placeholder_def)
  have g: "''0'' \<noteq> []" "list_all isDigit ''0''"
    by (simp_all add: isDigit_def)
  from interpolation_single_pass[OF m k e s g, of 64 Sprint_nil "[Str ''i18n:loop'']"]
  obtain a' r b' i' where
    a': "interpolateTranslations 64 Sprint_nil sample_module ''<'' ''en''
          [Str ''i18n:loop''] = Inr a'"
    and b': "interpolateTranslations 64 Sprint_nil sample_module ''>'' ''en''
          [Str ''i18n:loop''] = Inr b'"
    and r: "i18nTranslate 64 Sprint_nil sample_module ''loop'' ''en'' [Str ''i18n:loop''] =
          Inr ((a' @ r @ b', None), i')"
    and n: "\<forall>nested e x ds' y.
              digits_value ''0'' < length [Str ''i18n:loop'' :: unit arg]
              \<and> length [Str ''i18n:loop'' :: unit arg] < 2 ^ (64 - 1)
              \<and> [Str ''i18n:loop'' :: unit arg] ! digits_value ''0'' = Str (''i18n:'' @ nested)
              \<and> translationsMap sample_module nested = Some e
              \<and> (e ''en'' = Some (x @ placeholder ds' @ y)
                   \<or> (e ''en'' = None \<and> e ''en'' = Some (x @ placeholder ds' @ y)))
              \<longrightarrow> r = x @ placeholder ds' @ y"
    by blast
  have h: "digits_value ''0'' < length [Str ''i18n:loop'' :: unit arg]
              \<and> length [Str ''i18n:loop'' :: unit arg] < 2 ^ (64 - 1)
              \<and> [Str ''i18n:loop'' :: unit arg] ! digits_value ''0'' = Str (''i18n:'' @ ''loop'')
              \<and> translationsMap sample_module ''loop'' = Some [''en'' \<mapsto> ''<{0}>'']
              \<and> ([''en'' \<mapsto> ''<{0}>''] ''en'' = Some (''<'' @ placeholder ''0'' @ ''>'')
                   \<or> ([''en'' \<mapsto> ''<{0}>''] ''en'' = None
                       \<and> [''en'' \<mapsto> ''<{0}>''] ''en'' = Some (''<'' @ placeholder ''0'' @ ''>'')))"
    using k by (simp add: digits_value_def digit_of_def placeholder_def)
  from n[rule_format, OF h] have "r = ''<{0}>''"
    by (simp add: placeholder_def)
  with r a a' b b'
  have "i18nTranslate 64 Sprint_nil sample_module ''loop'' ''en'' [Str ''i18n:loop''] =
          Inr ((''<<{0}>>'', None), i')"
    by simp
  with m k show ?thesis by (intro conjI exI)
qed

text \<open>
  Claim C10. A string argument without the prefix \<open>i18n:\<close> replaces its token as it is, and
  the rendering of a non-string argument likewise: the replacement is not scanned, so
  placeholder tokens inside it stay in the output and are not substituted by other arguments.
  Example: the template \<open><{0}>\<close> with the arguments \<open>{1}\<close> and \<open>x\<close> gives \<open><{1}>\<close>.
\<close>

theorem plain_argument_verbatim:
  assumes "mu i = Some n" and "translationsMap i key = Some entry"
    and "entry lang = Some tmpl \<or> (entry lang = None \<and> entry ''en'' = Some tmpl)"
    and "tmpl = pre @ placeholder ds @ post" and "ds \<noteq> []" and "list_all isDigit ds"
    and "digits_value ds < length args" and "length args < 2 ^ (intSize - 1)"
  shows "(\<forall>str. args ! digits_value ds = Str str \<and> \<not> HasPrefix str ''i18n:'' \<longrightarrow>
            (\<exists>a b i'. interpolateTranslations intSize Sprint i pre lang args = Inr a
               \<and> interpolateTranslations intSize Sprint i post lang args = Inr b
               \<and> i18nTranslate intSize Sprint i key lang args = Inr ((a @ str @ b, None), i')))
       \<and> (\<forall>v. args ! digits_value ds = Other v \<longrightarrow>
            (\<exists>a b i'. interpolateTranslations intSize Sprint i pre lang args = Inr a
               \<and> interpolateTranslations intSize Sprint i post lang args = Inr b
               \<and> i18nTranslate intSize Sprint i key lang args =
                   Inr ((a @ Sprint v @ b, None), i')))"
proof (intro conjI allI impI)
  fix str
  assume "args ! digits_value ds = Str str \<and> \<not> HasPrefix str ''i18n:''"
  with assms(7,8) have "replace_match intSize Sprint i lang args (placeholder ds) = Inr str"
    by (simp add: replace_match_token[OF assms(5,6)])
  from i18nTranslate_token[OF assms(1-6) this]
  show "\<exists>a b i'. interpolateTranslations intSize Sprint i pre lang args = Inr a
               \<and> interpolateTranslations intSize Sprint i post lang args = Inr b
               \<and> i18nTranslate intSize Sprint i key lang args = Inr ((a @ str @ b, None), i')" .
next
  fix v
  assume "args ! digits_value ds = Other v"
  with assms(7,8) have "replace_match intSize Sprint i lang args (placeholder ds) = Inr (Sprint v)"
    by (simp add: replace_match_token[OF assms(5,6)])
  from i18nTranslate_token[OF assms(1-6) this]
  show "\<exists>a b i'. interpolateTranslations intSize Sprint i pre lang args = Inr a
               \<and> interpolateTranslations intSize Sprint i post lang args = Inr b
               \<and> i18nTranslate intSize Sprint i key lang args =
                   Inr ((a @ Sprint v @ b, None), i')" .
qed

theorem plain_argument_verbatim_witness:
  "mu sample_module = Some 0
   \<and> translationsMap sample_module ''loop'' = Some [''en'' \<mapsto> ''<{0}>'']
   \<and> digits_value ''0'' < length [Str ''{1}'' :: unit arg, Str ''x'']
   \<and> length [Str ''{1}'' :: unit arg, Str ''x''] < 2 ^ (64 - 1)
   \<and> \<not> HasPrefix ''{1}'' ''i18n:''
   \<and> (\<exists>i'. i18nTranslate 64 Sprint_nil sample_module ''loop'' ''en'' [Str ''{1}'', Str ''x''] =
          Inr ((''<{1}>'', None), i'))
   \<and> (\<exists>i'. i18nTranslate 64 Sprint_nil sample_module ''loop'' ''en'' [Other ()] =
          Inr ((''<<nil>>'', None), i'))"
proof -
  have m: "mu sample_module = Some 0" by (simp add: sample_module_def)
  have k: "translationsMap sample_module ''loop'' = Some [''en'' \<mapsto> ''<{0}>'']"
    by (simp add: sample_module_def sample_translations_def)
  have d: "digits_value ''0'' < length [Str ''{1}'' :: unit arg, Str ''x'']"
    by (simp add: digits_value_def digit_of_def)
  have l: "length [Str ''{1}'' :: unit arg, Str ''x''] < 2 ^ (64 - 1)" by simp
  have h: "\<not> HasPrefix ''{1}'' ''i18n:''" by (simp add: HasPrefix_def)
  have a: "interpolateTranslations 64 Sprint_nil sample_module ''<'' ''en'' args = Inr ''<''"
    for args by (simp add: scan_defs)
  have b: "interpolateTranslations 64 Sprint_nil sample_module ''>'' ''en'' args = Inr ''>''"
    for args by (simp add: scan_defs)
  have e: "[''en'' \<mapsto> ''<{0}>''] ''en'' = Some ''<{0}>''
        \<or> ([''en'' \<mapsto> ''<{0}>''] ''en'' = None \<and> [''en'' \<mapsto> ''<{0}>''] ''en'' = Some ''<{0}>'')"
    by simp
  have s: "''<{0}>'' = ''<'' @ placeholder ''0'' @ ''>''"
    by (simp add: placeholder_def)
  have g: "''0'' \<noteq> []" "list_all isDigit ''0''"
    by (simp_all add: isDigit_def)
  have x1: "[Str ''{1}'' :: unit arg, Str ''x''] ! digits_value ''0'' = Str ''{1}''
        \<and> \<not> HasPrefix ''{1}'' ''i18n:''"
    using h by (simp add: digits_value_def digit_of_def)
  from plain_argument_verbatim[OF m k e s g d l, of Sprint_nil] x1
  obtain a1 b1 i1 where
    "interpolateTranslations 64 Sprint_nil sample_module ''<'' ''en''
       [Str ''{1}'', Str ''x''] = Inr a1"
    "interpolateTranslations 64 Sprint_nil sample_module ''>'' ''en''
       [Str ''{1}'', Str ''x''] = Inr b1"
    "i18nTranslate 64 Sprint_nil sample_module ''loop'' ''en'' [Str ''{1}'', Str ''x''] =
       Inr ((a1 @ ''{1}'' @ b1, None), i1)"
    by blast
  with a b
  have 1: "i18nTranslate 64 Sprint_nil sample_module ''loop'' ''en'' [Str ''{1}'', Str ''x''] =
          Inr ((''<{1}>'', None), i1)"
    by simp
  have d2: "digits_value ''0'' < length [Other () :: unit arg]"
    by (simp add: digits_value_def digit_of_def)
  have l2: "length [Other () :: unit arg] < 2 ^ (64 - 1)" by simp
  have x2: "[Other () :: unit arg] ! digits_value ''0'' = Other ()"
    by (simp add: digits_value_def digit_of_def)
  from plain_argument_verbatim[OF m k e s g d2 l2, of Sprint_nil] x2
  obtain a2 b2 i2 where
    "interpolateTranslations 64 Sprint_nil sample_module ''<'' ''en'' [Other ()] = Inr a2"
    "interpolateTranslations 64 Sprint_nil sample_module ''>'' ''en'' [Other ()] = Inr b2"
    "i18nTranslate 64 Sprint_nil sample_module ''loop'' ''en'' [Other ()] =
       Inr ((a2 @ Sprint_nil () @ b2, None), i2)"
    by blast
  with a b
  have 2: "i18nTranslate 64 Sprint_nil sample_module ''loop'' ''en'' [Other ()] =
          Inr ((''<<nil>>'', None), i2)"
    by (simp add: Sprint_nil_def)
  from m k d l h 1 2 show ?thesis by (intro conjI exI)
qed

section \<open>Texts without placeholders\<close>

text \<open>
  Claim C7. When the chosen stored text contains no placeholder token (no substring made of
  an open brace, one or more decimal digits and a close brace), \<open>i18nTranslate\<close> returns that
  text exactly, whatever arguments are supplied; and with no arguments the chosen text is
  returned unchanged in any case.
\<close>

theorem text_without_placeholder_unchanged:
  assumes "mu i = Some n" and "translationsMap i key = Some entry"
    and "entry lang = Some tmpl \<or> (entry lang = None \<and> entry ''en'' = Some tmpl)"
  shows "(\<not> contains_placeholder tmpl \<longrightarrow>
            (\<exists>i'. i18nTranslate intSize Sprint i key lang args = Inr ((tmpl, None), i')))
       \<and> (\<exists>i'. i18nTranslate intSize Sprint i key lang [] = Inr ((tmpl, None), i'))"
proof (intro conjI impI)
  assume "\<not> contains_placeholder tmpl"
  then have "interpolateTranslations intSize Sprint i tmpl lang args = Inr tmpl"
    by (simp add: interpolateTranslations_def ReplaceAllStringFunc_no_match has_placeholder_iff)
  from i18nTranslate_chosen[OF assms this]
  show "\<exists>i'. i18nTranslate intSize Sprint i key lang args = Inr ((tmpl, None), i')" .
next
  from i18nTranslate_chosen[OF assms interpolateTranslations_no_args]
  show "\<exists>i'. i18nTranslate intSize Sprint i key lang [] = Inr ((tmpl, None), i')" .
qed

theorem text_without_placeholder_unchanged_witness:
  "mu sample_module = Some 0
   \<and> translationsMap sample_module ''hello'' = Some [''de'' \<mapsto> ''Hallo'', ''en'' \<mapsto> ''Hello'']
   \<and> \<not> contains_placeholder ''Hallo''
   \<and> (\<exists>i'. i18nTranslate 64 Sprint_nil sample_module ''hello'' ''de'' [Str ''x'', Other ()] =
          Inr ((''Hallo'', None), i'))"
proof -
  have m: "mu sample_module = Some 0" by (simp add: sample_module_def)
  have k: "translationsMap sample_module ''hello'' = Some [''de'' \<mapsto> ''Hallo'', ''en'' \<mapsto> ''Hello'']"
    by (simp add: sample_module_def sample_translations_def)
  have c: "\<not> contains_placeholder ''Hallo''"
    by (simp add: has_placeholder_iff[symmetric] match_placeholder_def)
  have e: "[''de'' \<mapsto> ''Hallo'', ''en'' \<mapsto> ''Hello''] ''de'' = Some ''Hallo''
        \<or> ([''de'' \<mapsto> ''Hallo'', ''en'' \<mapsto> ''Hello''] ''de'' = None
            \<and> [''de'' \<mapsto> ''Hallo'', ''en'' \<mapsto> ''Hello''] ''en'' = Some ''Hallo'')"
    by simp
  from text_without_placeholder_unchanged[OF m k e, of 64 Sprint_nil "[Str ''x'', Other ()]"] c
  obtain i' where
    "i18nTranslate 64 Sprint_nil sample_module ''hello'' ''de'' [Str ''x'', Other ()] =
          Inr ((''Hallo'', None), i')"
    by blast
  with m k c show ?thesis by (intro conjI exI)
qed

section \<open>Loading\<close>

lemma first_error_None: "first_error a b = None \<longleftrightarrow> a = None \<and> b = None"
  by (simp add: first_error_def split: option.splits)

lemma decode_text_ok: "fst (decode_text v) = None \<longleftrightarrow> is_text_or_null v"
  by (cases v) simp_all

lemma decode_locale_members_ok:
  "fst (decode_locale_members ms m) = None \<longleftrightarrow> list_all (\<lambda>(k, v). is_text_or_null v) ms"
proof (induction ms arbitrary: m)
  case Nil
  show ?case by simp
next
  case (Cons kv ms)
  obtain k v where kv: "kv = (k, v)" by (cases kv)
  obtain e s where d: "decode_text v = (e, s)" by (cases "decode_text v")
  obtain e' m' where r: "decode_locale_members ms (m(unquote k \<mapsto> s)) = (e', m')"
    by (cases "decode_locale_members ms (m(unquote k \<mapsto> s))")
  from decode_text_ok[of v] d have "e = None \<longleftrightarrow> is_text_or_null v" by simp
  moreover from r have "e' = fst (decode_locale_members ms (m(unquote k \<mapsto> s)))"
    by (metis fst_conv)
  then have "e' = None \<longleftrightarrow> list_all (\<lambda>(k, v). is_text_or_null v) ms"
    by (simp only: Cons.IH)
  ultimately show ?case by (simp add: kv d r first_error_None)
qed

lemma decode_locale_map_ok: "fst (decode_locale_map v) = None \<longleftrightarrow> is_language_map_or_null v"
  by (cases v) (simp_all add: decode_locale_members_ok)

lemma decode_members_ok:
  "fst (decode_members ms m) = None \<longleftrightarrow> list_all (\<lambda>(k, v). is_language_map_or_null v) ms"
proof (induction ms arbitrary: m)
  case Nil
  show ?case by simp
next
  case (Cons kv ms)
  obtain k v where kv: "kv = (k, v)" by (cases kv)
  obtain e inner where d: "decode_locale_map v = (e, inner)" by (cases "decode_locale_map v")
  obtain e' m' where r: "decode_members ms (m(unquote k \<mapsto> inner)) = (e', m')"
    by (cases "decode_members ms (m(unquote k \<mapsto> inner))")
  from decode_locale_map_ok[of v] d have "e = None \<longleftrightarrow> is_language_map_or_null v" by simp
  moreover from r have "e' = fst (decode_members ms (m(unquote k \<mapsto> inner)))"
    by (metis fst_conv)
  then have "e' = None \<longleftrightarrow> list_all (\<lambda>(k, v). is_language_map_or_null v) ms"
    by (simp only: Cons.IH)
  ultimately show ?case by (simp add: kv d r first_error_None)
qed

lemma unmarshal_ok: "fst (unmarshal v m) = None \<longleftrightarrow> is_dictionary_or_null v"
  by (cases v) (simp_all add: decode_members_ok)

lemma is_text_or_null_weaker: "is_text v \<Longrightarrow> is_text_or_null v"
  by (cases v) simp_all

lemma is_language_map_or_null_weaker: "is_language_map v \<Longrightarrow> is_language_map_or_null v"
  by (cases v) (auto simp: list_all_iff intro: is_text_or_null_weaker)

lemma is_dictionary_or_null_weaker: "is_dictionary v \<Longrightarrow> is_dictionary_or_null v"
  by (cases v) (auto simp: list_all_iff intro: is_language_map_or_null_weaker)

lemma two_level_document_accepted:
  "two_level_document bytes \<Longrightarrow> begins_with_dictionary_or_null bytes"
  by (auto simp: two_level_document_def begins_with_dictionary_or_null_def
           split: sum.splits intro: is_dictionary_or_null_weaker)

lemma loadDictionary_open_failed:
  "fs (DictFile i) = Inl e \<Longrightarrow>
   loadDictionary fs i =
     (if e = ENOENT then (Some (Message (''dictionary file not found: '' @ DictFile i)), i)
      else (Some (PathError ''open'' (DictFile i) e), i))"
  by (simp add: loadDictionary_def os_Open_def)

lemma loadDictionary_read_failed:
  "fs (DictFile i) = Inr (Inl e) \<Longrightarrow>
   loadDictionary fs i =
     (Some (Wrapped ''failed to parse JSON dictionary: '' (PathError ''read'' (DictFile i) e)), i)"
  by (simp add: loadDictionary_def os_Open_def Decode_def)

lemma loadDictionary_no_value:
  "fs (DictFile i) = Inr (Inr bytes) \<Longrightarrow> readValue bytes = Inl err \<Longrightarrow>
   loadDictionary fs i = (Some (Wrapped ''failed to parse JSON dictionary: '' err), i)"
  by (simp add: loadDictionary_def os_Open_def Decode_def)

lemma loadDictionary_value:
  "fs (DictFile i) = Inr (Inr bytes) \<Longrightarrow> readValue bytes = Inr (v, rest) \<Longrightarrow>
   loadDictionary fs i =
     (map_option (Wrapped ''failed to parse JSON dictionary: '')
        (fst (unmarshal v (translationsMap i))),
      i\<lparr>translationsMap := snd (unmarshal v (translationsMap i))\<rparr>)"
  by (cases "unmarshal v (translationsMap i)")
     (simp add: loadDictionary_def os_Open_def Decode_def split: option.splits)

lemma loadDictionary_decoded:
  assumes "fs (DictFile i) = Inr (Inr bytes)"
  shows "(begins_with_dictionary_or_null bytes \<longrightarrow> fst (loadDictionary fs i) = None)
       \<and> (\<not> begins_with_dictionary_or_null bytes \<longrightarrow>
            (\<exists>err. fst (loadDictionary fs i) =
                     Some (Wrapped ''failed to parse JSON dictionary: '' err)))"
proof (cases "readValue bytes")
  case (Inl err)
  with loadDictionary_no_value[of fs i bytes err] assms show ?thesis
    by (simp add: begins_with_dictionary_or_null_def)
next
  case (Inr vr)
  obtain v rest where vr: "vr = (v, rest)" by (cases vr)
  from unmarshal_ok[of v "translationsMap i"]
  show ?thesis
    by (cases "fst (unmarshal v (translationsMap i))")
       (simp_all add: loadDictionary_value[of fs i bytes v rest] assms
          begins_with_dictionary_or_null_def Inr vr)
qed

text \<open>
  After \<open>Provision\<close>, whether it succeeds or not, the module has its lock: the calls of
  \<open>i18nTranslate\<close> that the host makes afterwards meet the assumption \<open>mu i \<noteq> None\<close> of the
  theorems above.
\<close>

lemma loadDictionary_mu: "mu (snd (loadDictionary fs i)) = mu i"
  by (simp add: loadDictionary_def split: sum.splits option.splits prod.splits)

lemma Provision_sets_mu: "mu (snd (Provision fs ctx_logger i)) \<noteq> None"
proof -
  have l: "mu (log_to lvl msg kvs j) = mu j" for lvl msg kvs j
    by (simp add: log_to_def split: option.splits)
  have "mu (snd (case loadDictionary fs j of
                   (None, i4) \<Rightarrow>
                     (None, log_to InfoLevel ''i18n dictionary loaded successfully''
                              [(''dict_file'', DictFile i4)] i4)
                 | (Some err, i4) \<Rightarrow>
                     (Some (Wrapped ''failed to load i18n dictionary: '' err), i4))) = mu j" for j
    using loadDictionary_mu[of fs j]
    by (cases "loadDictionary fs j") (simp add: l split: option.splits)
  then show ?thesis
    by (simp add: Provision_def Let_def)
qed

lemmas json_defs =
  readValue_def stateBeginValue_def stateBeginString_def pushParseState_def
  maxNestingDepth_def isSpace_def isDigit_def isHex_def number_end_def state0_def
  stateESign_def

lemma readValue_empty_object: "readValue ''{}'' = Inr (JObject [], [])"
  by (simp add: json_defs)

lemma readValue_trailing: "readValue ''{} garbage'' = Inr (JObject [], '' garbage'')"
  by (simp add: json_defs)

lemma readValue_null: "readValue ''null'' = Inr (JNull, [])"
  by (simp add: json_defs)

lemma readValue_invalid: "readValue ''{invalid json}'' = Inl SyntaxError"
  by (simp add: json_defs)

lemma readValue_null_map:
  "readValue null_map_document = Inr (JObject [(''a'', JNull)], [])"
  by (simp add: json_defs null_map_document_def quoted_def)

lemma readValue_null_text:
  "readValue null_text_document = Inr (JObject [(''a'', JObject [(''en'', JNull)])], [])"
  by (simp add: json_defs null_text_document_def quoted_def)

lemma readValue_hello:
  "readValue hello_document =
     Inr (JObject [(''hello'', JObject [(''de'', JString ''Hallo''), (''en'', JString ''Hello'')])],
          [])"
  by (simp add: json_defs hello_document_def quoted_def)

lemma unquote_plain: "unquote ''hello'' = ''hello''" "unquote ''de'' = ''de''"
  "unquote ''en'' = ''en''" "unquote ''Hallo'' = ''Hallo''" "unquote ''Hello'' = ''Hello''"
  "unquote ''a'' = ''a''"
  by simp_all
lemma loadDictionary_hello:
  "loadDictionary sample_fs (sample_module\<lparr>DictFile := ''/etc/caddy/hello.json''\<rparr>) =
     (None,
      sample_module\<lparr>DictFile := ''/etc/caddy/hello.json'',
        translationsMap :=
          sample_translations(''hello'' \<mapsto> [''de'' \<mapsto> ''Hallo'', ''en'' \<mapsto> ''Hello''])\<rparr>)"
proof -
  have f: "sample_fs (DictFile (sample_module\<lparr>DictFile := ''/etc/caddy/hello.json''\<rparr>)) =
      Inr (Inr hello_document)"
    by (simp add: sample_fs_def)
  have m: "translationsMap (sample_module\<lparr>DictFile := ''/etc/caddy/hello.json''\<rparr>) =
      sample_translations"
    by (simp add: sample_module_def)
  show ?thesis
    using loadDictionary_value[of sample_fs "sample_module\<lparr>DictFile := ''/etc/caddy/hello.json''\<rparr>"
        hello_document _ "[]"] f readValue_hello
    by (simp add: m unquote_plain first_error_def)
qed

text \<open>
  Claim C6, as stated, fails in two of its clauses. A failure to read a file that opened (here
  a directory) comes back inside the parse failure message, so it is a parse error and not a
  read error. And documents that are not the two-level structure load without any error:
  bytes after the first JSON value are never looked at, and \<open>null\<close> is accepted for the
  dictionary, for a language map and for a text.
\<close>

theorem loadDictionary_counterexample:
  "sample_fs ''/etc/caddy'' = Inr (Inl EISDIR)
   \<and> fst (loadDictionary sample_fs (sample_module\<lparr>DictFile := ''/etc/caddy''\<rparr>)) =
       Some (Wrapped ''failed to parse JSON dictionary: '' (PathError ''read'' ''/etc/caddy'' EISDIR))
   \<and> failure_kind
         (Wrapped ''failed to parse JSON dictionary: '' (PathError ''read'' ''/etc/caddy'' EISDIR)) =
       Some ParseError
   \<and> sample_fs ''/etc/caddy/trailing.json'' = Inr (Inr ''{} garbage'')
   \<and> \<not> two_level_document ''{} garbage''
   \<and> fst (loadDictionary sample_fs (sample_module\<lparr>DictFile := ''/etc/caddy/trailing.json''\<rparr>)) =
       None
   \<and> sample_fs ''/etc/caddy/null.json'' = Inr (Inr ''null'')
   \<and> \<not> two_level_document ''null''
   \<and> fst (loadDictionary sample_fs (sample_module\<lparr>DictFile := ''/etc/caddy/null.json''\<rparr>)) =
       None
   \<and> sample_fs ''/etc/caddy/null_map.json'' = Inr (Inr null_map_document)
   \<and> \<not> two_level_document null_map_document
   \<and> fst (loadDictionary sample_fs (sample_module\<lparr>DictFile := ''/etc/caddy/null_map.json''\<rparr>)) =
       None
   \<and> sample_fs ''/etc/caddy/null_text.json'' = Inr (Inr null_text_document)
   \<and> \<not> two_level_document null_text_document
   \<and> fst (loadDictionary sample_fs (sample_module\<lparr>DictFile := ''/etc/caddy/null_text.json''\<rparr>)) =
       None"
proof -
  let ?m = "\<lambda>name. sample_module\<lparr>DictFile := name\<rparr>"
  have d: "sample_fs ''/etc/caddy'' = Inr (Inl EISDIR)" by (simp add: sample_fs_def)
  then have "sample_fs (DictFile (?m ''/etc/caddy'')) = Inr (Inl EISDIR)" by simp
  from loadDictionary_read_failed[of sample_fs "?m ''/etc/caddy''" EISDIR] this
  have 1: "fst (loadDictionary sample_fs (?m ''/etc/caddy'')) =
       Some (Wrapped ''failed to parse JSON dictionary: '' (PathError ''read'' ''/etc/caddy'' EISDIR))"
    by simp
  have 2: "failure_kind
         (Wrapped ''failed to parse JSON dictionary: '' (PathError ''read'' ''/etc/caddy'' EISDIR)) =
       Some ParseError" by simp
  have loads: "fst (loadDictionary sample_fs (?m name)) = None"
    if "sample_fs name = Inr (Inr bytes)" and "begins_with_dictionary_or_null bytes"
    for name bytes
    using loadDictionary_decoded[of sample_fs "?m name" bytes] that by simp
  have t: "sample_fs ''/etc/caddy/trailing.json'' = Inr (Inr ''{} garbage'')"
    by (simp add: sample_fs_def)
  have t1: "\<not> two_level_document ''{} garbage''"
    by (simp add: two_level_document_def readValue_trailing isSpace_def)
  have t2: "begins_with_dictionary_or_null ''{} garbage''"
    by (simp add: begins_with_dictionary_or_null_def readValue_trailing)
  have n: "sample_fs ''/etc/caddy/null.json'' = Inr (Inr ''null'')"
    by (simp add: sample_fs_def)
  have n1: "\<not> two_level_document ''null''"
    by (simp add: two_level_document_def readValue_null)
  have n2: "begins_with_dictionary_or_null ''null''"
    by (simp add: begins_with_dictionary_or_null_def readValue_null)
  have a: "sample_fs ''/etc/caddy/null_map.json'' = Inr (Inr null_map_document)"
    by (simp add: sample_fs_def)
  have a1: "\<not> two_level_document null_map_document"
    by (simp add: two_level_document_def readValue_null_map)
  have a2: "begins_with_dictionary_or_null null_map_document"
    by (simp add: begins_with_dictionary_or_null_def readValue_null_map)
  have b: "sample_fs ''/etc/caddy/null_text.json'' = Inr (Inr null_text_document)"
    by (simp add: sample_fs_def)
  have b1: "\<not> two_level_document null_text_document"
    by (simp add: two_level_document_def readValue_null_text)
  have b2: "begins_with_dictionary_or_null null_text_document"
    by (simp add: begins_with_dictionary_or_null_def readValue_null_text)
  from d 1 2 t t1 loads[OF t t2] n n1 loads[OF n n2] a a1 loads[OF a a2] b b1 loads[OF b b2]
  show ?thesis by (intro conjI)
qed

text \<open>
  Claim C6, amended. \<open>loadDictionary\<close> fails with its not-found error exactly when the source
  file does not exist. It fails with its parse error when the document does not begin with a
  complete JSON value or when that first value is not the two-level key-to-language-to-text
  structure, where \<open>null\<close> is accepted in place of the structure, of a language map and of a
  text, and the bytes after the first value are ignored; it loads every other document, among
  them every document of the two-level structure. It fails with a read error, the operating
  system's, for any other failure to open the file, and with its parse error, wrapping the
  cause, when the opened file cannot be read. On the empty document, the empty JSON object,
  \<open>Provision\<close> succeeds with a dictionary of zero keys.
\<close>

theorem loadDictionary_outcomes:
  "((fst (loadDictionary fs i) =
       Some (Message (''dictionary file not found: '' @ DictFile i)))
      \<longleftrightarrow> fs (DictFile i) = Inl ENOENT)
   \<and> (\<forall>bytes. fs (DictFile i) = Inr (Inr bytes) \<and> \<not> begins_with_dictionary_or_null bytes \<longrightarrow>
          (\<exists>err. fst (loadDictionary fs i) =
                   Some (Wrapped ''failed to parse JSON dictionary: '' err)))
   \<and> (\<forall>bytes. fs (DictFile i) = Inr (Inr bytes) \<and> begins_with_dictionary_or_null bytes \<longrightarrow>
          fst (loadDictionary fs i) = None)
   \<and> (\<forall>bytes. fs (DictFile i) = Inr (Inr bytes) \<and> two_level_document bytes \<longrightarrow>
          fst (loadDictionary fs i) = None)
   \<and> (\<forall>e. fs (DictFile i) = Inl e \<and> e \<noteq> ENOENT \<longrightarrow>
          fst (loadDictionary fs i) = Some (PathError ''open'' (DictFile i) e)
          \<and> failure_kind (PathError ''open'' (DictFile i) e) = Some ReadError)
   \<and> (\<forall>e. fs (DictFile i) = Inr (Inl e) \<longrightarrow>
          fst (loadDictionary fs i) =
            Some (Wrapped ''failed to parse JSON dictionary: ''
                   (PathError ''read'' (DictFile i) e)))
   \<and> (DictFile i \<noteq> [] \<and> fs (DictFile i) = Inr (Inr ''{}'') \<longrightarrow>
          (\<exists>i'. Provision fs ctx_logger i = (None, i') \<and> dom (translationsMap i') = {}))"
proof (intro conjI allI impI)
  show "(fst (loadDictionary fs i) =
       Some (Message (''dictionary file not found: '' @ DictFile i)))
      \<longleftrightarrow> fs (DictFile i) = Inl ENOENT"
  proof (cases "fs (DictFile i)")
    case (Inl e)
    then show ?thesis by (simp add: loadDictionary_open_failed)
  next
    case (Inr content)
    show ?thesis
    proof (cases content)
      case (Inl e)
      with Inr show ?thesis by (simp add: loadDictionary_read_failed)
    next
      case bytes: (Inr bytes)
      from Inr bytes have f: "fs (DictFile i) = Inr (Inr bytes)" by simp
      from loadDictionary_decoded[of fs i bytes] f show ?thesis
        by (cases "begins_with_dictionary_or_null bytes") auto
    qed
  qed
next
  fix bytes
  assume "fs (DictFile i) = Inr (Inr bytes) \<and> \<not> begins_with_dictionary_or_null bytes"
  then show "\<exists>err. fst (loadDictionary fs i) =
                   Some (Wrapped ''failed to parse JSON dictionary: '' err)"
    using loadDictionary_decoded[of fs i bytes] by simp
next
  fix bytes
  assume "fs (DictFile i) = Inr (Inr bytes) \<and> begins_with_dictionary_or_null bytes"
  then show "fst (loadDictionary fs i) = None"
    using loadDictionary_decoded[of fs i bytes] by simp
next
  fix bytes
  assume "fs (DictFile i) = Inr (Inr bytes) \<and> two_level_document bytes"
  then show "fst (loadDictionary fs i) = None"
    using loadDictionary_decoded[of fs i bytes] two_level_document_accepted[of bytes] by simp
next
  fix e
  assume "fs (DictFile i) = Inl e \<and> e \<noteq> ENOENT"
  then show "fst (loadDictionary fs i) = Some (PathError ''open'' (DictFile i) e)"
    by (simp add: loadDictionary_open_failed)
next
  fix e
  show "failure_kind (PathError ''open'' (DictFile i) e) = Some ReadError" by simp
next
  fix e
  assume "fs (DictFile i) = Inr (Inl e)"
  then show "fst (loadDictionary fs i) =
            Some (Wrapped ''failed to parse JSON dictionary: ''
                   (PathError ''read'' (DictFile i) e))"
    by (simp add: loadDictionary_read_failed)
next
  assume a: "DictFile i \<noteq> [] \<and> fs (DictFile i) = Inr (Inr ''{}'')"
  have aux: "\<exists>i'. (case loadDictionary fs j of
                 (None, i4) \<Rightarrow>
                   (None, log_to InfoLevel ''i18n dictionary loaded successfully''
                            [(''dict_file'', DictFile i4)] i4)
               | (Some err, i4) \<Rightarrow>
                   (Some (Wrapped ''failed to load i18n dictionary: '' err), i4)) = (None, i')
             \<and> dom (translationsMap i') = {}"
    if "DictFile j = DictFile i" and "translationsMap j = Map.empty" for j
  proof -
    from a that have "fs (DictFile j) = Inr (Inr ''{}'')" by simp
    from loadDictionary_value[of fs j "''{}''" "JObject []" "[]"] this readValue_empty_object that
    have "loadDictionary fs j = (None, j\<lparr>translationsMap := Map.empty\<rparr>)"
      by simp
    then show ?thesis
      by (simp add: log_to_def split: option.splits)
  qed
  from a aux[of "i\<lparr>logger := Some ctx_logger, mu := Some 0, translationsMap := Map.empty\<rparr>"]
    aux[of "i\<lparr>logger := Some ctx_logger, translationsMap := Map.empty\<rparr>"]
  show "\<exists>i'. Provision fs ctx_logger i = (None, i') \<and> dom (translationsMap i') = {}"
    by (simp add: Provision_def Let_def)
qed

theorem loadDictionary_outcomes_witness:
  "fst (loadDictionary sample_fs (sample_module\<lparr>DictFile := ''/nonexistent/path/dict.json''\<rparr>)) =
     Some (Message ''dictionary file not found: /nonexistent/path/dict.json'')
   \<and> \<not> begins_with_dictionary_or_null ''{invalid json}''
   \<and> (\<exists>err. fst (loadDictionary sample_fs (sample_module\<lparr>DictFile := ''/etc/caddy/broken.json''\<rparr>)) =
          Some (Wrapped ''failed to parse JSON dictionary: '' err))
   \<and> begins_with_dictionary_or_null null_text_document
   \<and> fst (loadDictionary sample_fs (sample_module\<lparr>DictFile := ''/etc/caddy/null_text.json''\<rparr>)) =
       None
   \<and> two_level_document hello_document
   \<and> fst (loadDictionary sample_fs (sample_module\<lparr>DictFile := ''/etc/caddy/hello.json''\<rparr>)) = None
   \<and> fst (loadDictionary sample_fs (sample_module\<lparr>DictFile := ''/root/secret.json''\<rparr>)) =
       Some (PathError ''open'' ''/root/secret.json'' EACCES)
   \<and> fst (loadDictionary sample_fs (sample_module\<lparr>DictFile := ''/etc/caddy''\<rparr>)) =
       Some (Wrapped ''failed to parse JSON dictionary: '' (PathError ''read'' ''/etc/caddy'' EISDIR))
   \<and> (\<exists>i'. Provision sample_fs [] sample_module = (None, i') \<and> dom (translationsMap i') = {})"
proof -
  let ?m = "\<lambda>name. sample_module\<lparr>DictFile := name\<rparr>"
  note o = loadDictionary_outcomes[of sample_fs _ "[]"]
  have f1: "sample_fs (DictFile (?m ''/nonexistent/path/dict.json'')) = Inl ENOENT"
    by (simp add: sample_fs_def)
  from o[of "?m ''/nonexistent/path/dict.json''", THEN conjunct1] f1
  have 1: "fst (loadDictionary sample_fs (?m ''/nonexistent/path/dict.json'')) =
     Some (Message ''dictionary file not found: /nonexistent/path/dict.json'')"
    by simp
  have x: "\<not> begins_with_dictionary_or_null ''{invalid json}''"
    by (simp add: begins_with_dictionary_or_null_def readValue_invalid)
  have f2: "sample_fs (DictFile (?m ''/etc/caddy/broken.json'')) = Inr (Inr ''{invalid json}'')
      \<and> \<not> begins_with_dictionary_or_null ''{invalid json}''"
    using x by (simp add: sample_fs_def)
  from o[of "?m ''/etc/caddy/broken.json''", THEN conjunct2, THEN conjunct1, rule_format, OF f2]
  have 2: "\<exists>err. fst (loadDictionary sample_fs (?m ''/etc/caddy/broken.json'')) =
          Some (Wrapped ''failed to parse JSON dictionary: '' err)" .
  have y: "begins_with_dictionary_or_null null_text_document"
    by (simp add: begins_with_dictionary_or_null_def readValue_null_text)
  have f3: "sample_fs (DictFile (?m ''/etc/caddy/null_text.json'')) = Inr (Inr null_text_document)
      \<and> begins_with_dictionary_or_null null_text_document"
    using y by (simp add: sample_fs_def)
  from o[of "?m ''/etc/caddy/null_text.json''", THEN conjunct2, THEN conjunct2, THEN conjunct1,
        rule_format, OF f3]
  have 3: "fst (loadDictionary sample_fs (?m ''/etc/caddy/null_text.json'')) = None" .
  have z: "two_level_document hello_document"
    by (simp add: two_level_document_def readValue_hello)
  have f4: "sample_fs (DictFile (?m ''/etc/caddy/hello.json'')) = Inr (Inr hello_document)
      \<and> two_level_document hello_document"
    using z by (simp add: sample_fs_def)
  from o[of "?m ''/etc/caddy/hello.json''", THEN conjunct2, THEN conjunct2, THEN conjunct2,
        THEN conjunct1, rule_format, OF f4]
  have 4: "fst (loadDictionary sample_fs (?m ''/etc/caddy/hello.json'')) = None" .
  have f5: "sample_fs (DictFile (?m ''/root/secret.json'')) = Inl EACCES \<and> EACCES \<noteq> ENOENT"
    by (simp add: sample_fs_def)
  from o[of "?m ''/root/secret.json''", THEN conjunct2, THEN conjunct2, THEN conjunct2,
        THEN conjunct2, THEN conjunct1, rule_format, OF f5]
  have 5: "fst (loadDictionary sample_fs (?m ''/root/secret.json'')) =
       Some (PathError ''open'' ''/root/secret.json'' EACCES)"
    by simp
  have f6: "sample_fs (DictFile (?m ''/etc/caddy'')) = Inr (Inl EISDIR)"
    by (simp add: sample_fs_def)
  from o[of "?m ''/etc/caddy''", THEN conjunct2, THEN conjunct2, THEN conjunct2,
        THEN conjunct2, THEN conjunct2, THEN conjunct1, rule_format, OF f6]
  have 6: "fst (loadDictionary sample_fs (?m ''/etc/caddy'')) =
       Some (Wrapped ''failed to parse JSON dictionary: '' (PathError ''read'' ''/etc/caddy'' EISDIR))"
    by simp
  have f7: "DictFile sample_module \<noteq> [] \<and> sample_fs (DictFile sample_module) = Inr (Inr ''{}'')"
    by (simp add: sample_fs_def sample_module_def)
  from o[of sample_module, THEN conjunct2, THEN conjunct2, THEN conjunct2,
        THEN conjunct2, THEN conjunct2, THEN conjunct2, rule_format, OF f7]
  have 7: "\<exists>i'. Provision sample_fs [] sample_module = (None, i')
      \<and> dom (translationsMap i') = {}" .
  from 1 x 2 y 3 z 4 5 6 7 show ?thesis by (intro conjI)
qed

end
